theory Spec2Isabelle
  imports Main "HOL-Library.Word"
begin

section \<open>Data model of the stepper examples\<close>

text \<open>
  The repository holds four Arduino sketches for the M5Stack Core (ESP32) that drive two
  steppers through the FastAccelStepper library:
  \<^item> \<open>2MotorControlBasic.cpp\<close> (v1.0) and \<open>2MotorControlBasic16Step.cpp\<close> (v2.0):
    \<open>moveBothMotors\<close> only;
  \<^item> \<open>2MotorControlBasic16StepAdjSpeed.cpp\<close> (v2.1): the same \<open>moveBothMotors\<close>, plus
    \<open>updateSpeed\<close>;
  \<^item> \<open>2MotorControlBasic16StepAdj-spd-rev-accel.cpp\<close> (v2.7): \<open>moveBothMotors\<close> and
    \<open>updateSpeed\<close> with the zero-speed stop.
  Unsuffixed names below are those of v2.7; \<open>_Basic\<close> marks the body shared by v1.0, v2.0
  and v2.1, \<open>_AdjSpeed\<close> what only v2.1 has.

  \<open>int32_t\<close> and \<open>long\<close> are 32 bits wide on the ESP32, so step counts and pulse
  counters are \<open>32 word\<close>: \<open>+\<close> wraps around and \<open>sint\<close> reads the signed value.
\<close>

type_synonym int32 = "32 word"

text \<open>
  The library object behind a non-null \<open>FastAccelStepper*\<close> is opaque to the sketches.
  It is modelled by the calls it has received, oldest first.
\<close>

datatype stepper_call =
    SetDirectionPin int
  | SetAutoEnable bool
  | SetAcceleration int
  | SetSpeedInHz int
  | Move int32
  | StopMove

type_synonym FastAccelStepper = "stepper_call list"

text \<open>Calls to the serial port, the display and the I2C driver chip, in program order.
  A format string is kept with its arguments; its trailing line feed is left out.\<close>

datatype io_call =
    M5Begin
  | M5Update
  | SerialBegin int
  | SerialPrint string "int list"
  | LcdSetTextSize int
  | LcdSetRotation int
  | LcdFillScreen
  | LcdFillRect int int int int
  | LcdSetCursor int int
  | LcdPrint string "int list"
  | EngineInit
  | WireBegin int int int
  | DriverInit
  | DriverResetMotor int int
  | DriverEnableMotor int

text \<open>
  The globals of the sketch, followed by the world outside it: the trace of I/O calls,
  the number of times the completion loop has asked the library \<open>isRunning()\<close>, the
  milliseconds spent in \<open>delay\<close>, and a flag raised if a null stepper pointer were ever
  dereferenced.
\<close>

record state =
  accelerationRate :: int
  revolutionsPerMove :: int
  steppers :: "FastAccelStepper option list"
  pulseCounts :: "int32 list"
  currentSpeedIndex :: int
  io :: "io_call list"
  polls :: nat
  millis :: nat
  null_deref :: bool

text \<open>What \<open>isRunning()\<close> answers is decided by the library and its timer interrupts:
  it is an input, indexed by the poll round and the channel.\<close>

type_synonym running = "nat \<Rightarrow> nat \<Rightarrow> bool"

definition X_DIR_PIN :: int where "X_DIR_PIN = 17"
definition X_STEP_PIN :: int where "X_STEP_PIN = 16"
definition Y_DIR_PIN :: int where "Y_DIR_PIN = 13"
definition Y_STEP_PIN :: int where "Y_STEP_PIN = 12"

definition FULL_STEP_PER_REV :: int where "FULL_STEP_PER_REV = 200"
definition MICRO_STEPS :: int where "MICRO_STEPS = 16"
definition STEPS_PER_REV :: int where "STEPS_PER_REV = FULL_STEP_PER_REV * MICRO_STEPS"

definition speedLevels :: "int list" where
  "speedLevels = [0, 1600, 3200, 4800, 6400, 8000]"

definition speedPercentages :: "int list" where
  "speedPercentages = [0, 20, 40, 60, 80, 100]"

definition speedLevelsCount :: int where
  "speedLevelsCount = int (length speedLevels)"

definition speedLevels_AdjSpeed :: "int list" where
  "speedLevels_AdjSpeed = [0, 100, 200, 300, 400, 500]"

definition speedLevelsCount_AdjSpeed :: int where
  "speedLevelsCount_AdjSpeed = int (length speedLevels_AdjSpeed)"

text \<open>The global initialisers of v2.7.\<close>

definition globals :: state where
  "globals = \<lparr> accelerationRate = 2000, revolutionsPerMove = 5,
       steppers = [None, None], pulseCounts = [0, 0], currentSpeedIndex = 0,
       io = [], polls = 0, millis = 0, null_deref = False \<rparr>"

text \<open>Both arrays have two entries; the index is one the table has.\<close>

definition two_channels :: "state \<Rightarrow> bool" where
  "two_channels s \<longleftrightarrow> length (steppers s) = 2 \<and> length (pulseCounts s) = 2"

definition index_ok :: "state \<Rightarrow> bool" where
  "index_ok s \<longleftrightarrow> 0 \<le> currentSpeedIndex s \<and> currentSpeedIndex s < speedLevelsCount"

definition index_ok_AdjSpeed :: "state \<Rightarrow> bool" where
  "index_ok_AdjSpeed s \<longleftrightarrow>
     0 \<le> currentSpeedIndex s \<and> currentSpeedIndex s < speedLevelsCount_AdjSpeed"

section \<open>Primitive effects\<close>

definition emit :: "io_call \<Rightarrow> state \<Rightarrow> state" where
  "emit c s = s\<lparr>io := io s @ [c]\<rparr>"

text \<open>\<open>steppers[i]->m(...)\<close>: the object records the call; through a null pointer the
  program has no defined behaviour, which the flag records.\<close>

definition invoke :: "nat \<Rightarrow> stepper_call \<Rightarrow> state \<Rightarrow> state" where
  "invoke i c s =
     (case steppers s ! i of
        None \<Rightarrow> s\<lparr>null_deref := True\<rparr>
      | Some obj \<Rightarrow> s\<lparr>steppers := (steppers s)[i := Some (obj @ [c])]\<rparr>)"

text \<open>\<open>pulseCounts[i] += steps\<close>, in 32-bit arithmetic.\<close>

definition add_pulses :: "nat \<Rightarrow> int32 \<Rightarrow> state \<Rightarrow> state" where
  "add_pulses i steps s = s\<lparr>pulseCounts := (pulseCounts s)[i := pulseCounts s ! i + steps]\<rparr>"

definition delay :: "nat \<Rightarrow> state \<Rightarrow> state" where
  "delay ms s = s\<lparr>millis := millis s + ms\<rparr>"

text \<open>\<open>for (int i = 0; i < 2; i++) body\<close>.\<close>

definition for_i :: "(nat \<Rightarrow> state \<Rightarrow> state) \<Rightarrow> state \<Rightarrow> state" where
  "for_i body s = fold body [0..<2] s"

text \<open>\<open>speedLevels[currentSpeedIndex]\<close> and \<open>speedPercentages[currentSpeedIndex]\<close>.
  Outside the table the read has no defined value, in C++ as here: what depends on it is
  stated for an index the table has.\<close>

definition speedLevel :: "state \<Rightarrow> int" where
  "speedLevel s = speedLevels ! nat (currentSpeedIndex s)"

definition speedPercentage :: "state \<Rightarrow> int" where
  "speedPercentage s = speedPercentages ! nat (currentSpeedIndex s)"

definition speedLevel_AdjSpeed :: "state \<Rightarrow> int" where
  "speedLevel_AdjSpeed s = speedLevels_AdjSpeed ! nat (currentSpeedIndex s)"

section \<open>The display routines (v2.7)\<close>

definition drawInstructions :: "state \<Rightarrow> state" where
  "drawInstructions s =
     emit (LcdPrint ''Accel: %d'' [accelerationRate s])
      (emit (LcdPrint ''Move %d revolutions'' [revolutionsPerMove s])
        (emit (LcdPrint ''Speed: %d%%'' [speedPercentage s])
          (emit (LcdPrint ''Press B to change speed'' [])
            (emit (LcdSetCursor 0 100)
              (emit (LcdFillRect 0 100 320 50) s)))))"

definition drawStatus :: "state \<Rightarrow> state" where
  "drawStatus s =
     emit (LcdPrint ''Y Pulses: %ld'' [sint (pulseCounts s ! 1)])
      (emit (LcdPrint ''X Pulses: %ld'' [sint (pulseCounts s ! 0)])
        (emit (LcdSetCursor 0 40)
          (emit (LcdFillRect 0 40 320 60) s)))"

section \<open>The completion loop\<close>

text \<open>
  \<open>while ((steppers[0] && steppers[0]->isRunning()) || (steppers[1] && steppers[1]->isRunning()))
  delay(10);\<close>
  Every evaluation of the condition is one poll round; \<open>&&\<close> keeps a null pointer from
  being asked. The loop has no bound of its own: it is \<open>None\<close> when the library never
  reports idle.
\<close>

definition anyRunning :: "running \<Rightarrow> state \<Rightarrow> bool" where
  "anyRunning isRunning s \<longleftrightarrow>
     (steppers s ! 0 \<noteq> None \<and> isRunning (polls s) 0) \<or>
     (steppers s ! 1 \<noteq> None \<and> isRunning (polls s) 1)"

definition polled :: "state \<Rightarrow> state" where
  "polled s = s\<lparr>polls := polls s + 1\<rparr>"

partial_function (option) wait_loop :: "running \<Rightarrow> state \<Rightarrow> state option" where
  "wait_loop isRunning s =
     (if anyRunning isRunning s then wait_loop isRunning (delay 10 (polled s))
      else Some (polled s))"

section \<open>moveBothMotors\<close>

text \<open>v2.7: the zero-speed branch stops every configured stepper and returns early.\<close>

definition stop_body :: "nat \<Rightarrow> state \<Rightarrow> state" where
  "stop_body i s =
     (if steppers s ! i \<noteq> None then invoke i StopMove (invoke i (SetSpeedInHz 0) s) else s)"

definition move_body :: "int32 \<Rightarrow> nat \<Rightarrow> state \<Rightarrow> state" where
  "move_body steps i s =
     (if steppers s ! i \<noteq> None then
        add_pulses i steps
          (invoke i (Move steps)
            (invoke i (SetSpeedInHz (speedLevel s))
              (invoke i (SetAcceleration (accelerationRate s)) s)))
      else s)"

definition moveBothMotors :: "running \<Rightarrow> int32 \<Rightarrow> state \<Rightarrow> state option" where
  "moveBothMotors isRunning steps s =
     (if speedLevel s = 0 then
        Some (for_i stop_body
               (emit (SerialPrint ''Speed is 0, skipping move and stopping motors.'' []) s))
      else
        map_option (emit (SerialPrint ''Move complete.'' []))
          (wait_loop isRunning
            (for_i (move_body steps)
              (emit (SerialPrint ''Acceleration: %d'' [accelerationRate s])
                (emit (SerialPrint ''Moving motors by %ld steps at speed index %d (%d Hz)''
                         [sint steps, currentSpeedIndex s, speedLevel s]) s)))))"

text \<open>v1.0, v2.0 and v2.1: no speed check, no configuration, no serial output.\<close>

definition move_body_Basic :: "int32 \<Rightarrow> nat \<Rightarrow> state \<Rightarrow> state" where
  "move_body_Basic steps i s =
     (if steppers s ! i \<noteq> None then add_pulses i steps (invoke i (Move steps) s) else s)"

definition moveBothMotors_Basic :: "running \<Rightarrow> int32 \<Rightarrow> state \<Rightarrow> state option" where
  "moveBothMotors_Basic isRunning steps s =
     wait_loop isRunning (for_i (move_body_Basic steps) s)"

section \<open>updateSpeed\<close>

definition advance :: "int \<Rightarrow> state \<Rightarrow> state" where
  "advance count s =
     (let s1 = s\<lparr>currentSpeedIndex := currentSpeedIndex s + 1\<rparr>
      in if currentSpeedIndex s1 \<ge> count then s1\<lparr>currentSpeedIndex := 0\<rparr> else s1)"

definition speed_body :: "nat \<Rightarrow> state \<Rightarrow> state" where
  "speed_body i s =
     (if steppers s ! i \<noteq> None then invoke i (SetSpeedInHz (speedLevel s)) s else s)"

definition updateSpeed :: "state \<Rightarrow> state" where
  "updateSpeed s =
     (let s1 = advance speedLevelsCount s;
          s2 = emit (SerialPrint ''Speed changed to index %d (%d Hz = %d%%)''
                       [currentSpeedIndex s1, speedLevel s1, speedPercentage s1]) s1;
          s3 = (if speedLevel s2 = 0 then for_i stop_body s2 else for_i speed_body s2)
      in drawInstructions s3)"

text \<open>v2.1: the new speed is pushed to the steppers whatever it is; its
  \<open>drawInstructions\<close> prints two lines.\<close>

definition drawInstructions_AdjSpeed :: "state \<Rightarrow> state" where
  "drawInstructions_AdjSpeed s =
     emit (LcdPrint ''Speed: %d%%'' [speedPercentage s])
       (emit (LcdPrint ''Press B to change speed'' [])
         (emit (LcdSetCursor 0 100)
           (emit (LcdFillRect 0 100 320 40) s)))"

definition speed_body_AdjSpeed :: "nat \<Rightarrow> state \<Rightarrow> state" where
  "speed_body_AdjSpeed i s =
     (if steppers s ! i \<noteq> None then invoke i (SetSpeedInHz (speedLevel_AdjSpeed s)) s else s)"

definition updateSpeed_AdjSpeed :: "state \<Rightarrow> state" where
  "updateSpeed_AdjSpeed s =
     drawInstructions_AdjSpeed
       (for_i speed_body_AdjSpeed (advance speedLevelsCount_AdjSpeed s))"

section \<open>Start-up and the main loop (v2.7)\<close>

definition emits :: "io_call list \<Rightarrow> state \<Rightarrow> state" where
  "emits cs s = fold emit cs s"

definition setup_body :: "nat \<Rightarrow> state \<Rightarrow> state" where
  "setup_body i s =
     (if steppers s ! i \<noteq> None then
        emit (SerialPrint ''Acceleration: %d'' [accelerationRate s])
          (emit (SerialPrint ''Initial speed stepper %d: %d Hz'' [int i, speedLevel s])
            (invoke i (SetSpeedInHz (speedLevel s))
              (invoke i (SetAcceleration (accelerationRate s))
                (invoke i (SetAutoEnable True)
                  (invoke i (SetDirectionPin (if i = 0 then X_DIR_PIN else Y_DIR_PIN)) s)))))
      else s)"

text \<open>
  \<open>setup()\<close>, named \<open>setup_sketch\<close> here. \<open>engine.stepperConnectToPin\<close> returns a
  fresh stepper or a null pointer; which one is the library's decision, taken here as
  the inputs \<open>x_ok\<close> and \<open>y_ok\<close>.
\<close>

definition stepperConnectToPin :: "int \<Rightarrow> bool \<Rightarrow> FastAccelStepper option" where
  "stepperConnectToPin pin ok = (if ok then Some [] else None)"

definition setup_sketch :: "bool \<Rightarrow> bool \<Rightarrow> state \<Rightarrow> state" where
  "setup_sketch x_ok y_ok s =
     (let s1 = emits [M5Begin, SerialBegin 115200, SerialPrint ''Setup starting...'' [],
                      LcdSetTextSize 2, LcdSetRotation 1, LcdFillScreen, LcdSetCursor 0 0,
                      LcdPrint ''Stepper Ready (1/16 Step)'' [],
                      LcdPrint ''A: FWD 5rev  C: REV 5rev'' [], EngineInit] s;
          s2 = s1\<lparr>steppers := (steppers s1)[0 := stepperConnectToPin X_STEP_PIN x_ok]\<rparr>;
          s3 = s2\<lparr>steppers := (steppers s2)[1 := stepperConnectToPin Y_STEP_PIN y_ok]\<rparr>;
          s4 = for_i setup_body s3;
          s5 = emits [WireBegin 21 22 400000, DriverInit, DriverResetMotor 0 0,
                      DriverResetMotor 1 0, DriverEnableMotor 1] s4;
          s6 = drawStatus (drawInstructions s5)
      in emit (SerialPrint ''Setup complete.'' []) s6)"

text \<open>One pass of \<open>loop()\<close>; the three booleans are what \<open>wasClicked()\<close> answers for
  buttons A, C and B after \<open>M5.update()\<close>. The product is an \<open>int\<close> converted to
  \<open>int32_t\<close>.\<close>

definition loop :: "running \<Rightarrow> bool \<Rightarrow> bool \<Rightarrow> bool \<Rightarrow> state \<Rightarrow> state option" where
  "loop isRunning btnA btnC btnB s =
     (case (if btnA then
              map_option drawStatus
                (moveBothMotors isRunning (word_of_int (STEPS_PER_REV * revolutionsPerMove s))
                   (emit M5Update s))
            else Some (emit M5Update s)) of
        None \<Rightarrow> None
      | Some s1 \<Rightarrow>
         (case (if btnC then
                  map_option drawStatus
                    (moveBothMotors isRunning
                       (word_of_int (- STEPS_PER_REV * revolutionsPerMove s1)) s1)
                else Some s1) of
            None \<Rightarrow> None
          | Some s2 \<Rightarrow> Some (if btnB then updateSpeed s2 else s2)))"

text \<open>The operations of the sketch as data, to speak about every sequence of them.\<close>

datatype operation =
    MoveBothMotors int32
  | UpdateSpeed
  | DrawStatus
  | DrawInstructions

fun exec :: "running \<Rightarrow> operation \<Rightarrow> state \<Rightarrow> state option" where
  "exec isRunning (MoveBothMotors steps) s = moveBothMotors isRunning steps s"
| "exec isRunning UpdateSpeed s = Some (updateSpeed s)"
| "exec isRunning DrawStatus s = Some (drawStatus s)"
| "exec isRunning DrawInstructions s = Some (drawInstructions s)"

fun execs :: "running \<Rightarrow> operation list \<Rightarrow> state \<Rightarrow> state option" where
  "execs isRunning [] s = Some s"
| "execs isRunning (x # xs) s =
     (case exec isRunning x s of None \<Rightarrow> None | Some s' \<Rightarrow> execs isRunning xs s')"

text \<open>The operations one pass of \<open>loop()\<close> runs, by the buttons clicked.\<close>

definition presses :: "bool \<Rightarrow> bool \<Rightarrow> bool \<Rightarrow> state \<Rightarrow> operation list" where
  "presses btnA btnC btnB s =
     (if btnA then [MoveBothMotors (word_of_int (STEPS_PER_REV * revolutionsPerMove s)),
                    DrawStatus] else []) @
     (if btnC then [MoveBothMotors (word_of_int (- STEPS_PER_REV * revolutionsPerMove s)),
                    DrawStatus] else []) @
     (if btnB then [UpdateSpeed] else [])"

text \<open>The sketches v1.0 to v2.1 run their \<open>moveBothMotors\<close> once per step count.\<close>

fun moves_Basic :: "running \<Rightarrow> int32 list \<Rightarrow> state \<Rightarrow> state option" where
  "moves_Basic isRunning [] s = Some s"
| "moves_Basic isRunning (x # xs) s =
     (case moveBothMotors_Basic isRunning x s of
        None \<Rightarrow> None
      | Some s' \<Rightarrow> moves_Basic isRunning xs s')"

section \<open>Auxiliary notions for the proofs\<close>

text \<open>Every configured stepper has received the calls \<open>cs\<close>.\<close>

definition sent :: "stepper_call list \<Rightarrow> state \<Rightarrow> state" where
  "sent cs s = s\<lparr>steppers := map (map_option (\<lambda>obj. obj @ cs)) (steppers s)\<rparr>"

text \<open>Every configured channel's counter has been advanced by \<open>steps\<close>.\<close>

definition counted :: "int32 \<Rightarrow> state \<Rightarrow> state" where
  "counted steps s =
     s\<lparr>pulseCounts :=
         map2 (\<lambda>st p. if st \<noteq> None then p + steps else p) (steppers s) (pulseCounts s)\<rparr>"

text \<open>Round \<open>polls s + n\<close> is the first one in which no configured stepper is running.\<close>

definition first_idle :: "running \<Rightarrow> state \<Rightarrow> nat \<Rightarrow> bool" where
  "first_idle R s n \<longleftrightarrow>
     (\<forall>k<n. anyRunning R (s\<lparr>polls := polls s + k\<rparr>)) \<and>
     \<not> anyRunning R (s\<lparr>polls := polls s + n\<rparr>)"

text \<open>The state after \<open>n\<close> busy rounds, each followed by \<open>delay(10)\<close>, and one idle round.\<close>

definition waited :: "nat \<Rightarrow> state \<Rightarrow> state" where
  "waited n s = s\<lparr>polls := polls s + n + 1, millis := millis s + 10 * n\<rparr>"

text \<open>The library's answers with those for channel \<open>i\<close> replaced by the answers of
  another library.\<close>

definition override :: "nat \<Rightarrow> running \<Rightarrow> running \<Rightarrow> running" where
  "override i R' R k j = (if j = i then R' k j else R k j)"

text \<open>
  What it means that a call started in \<open>s\<close> has returned in \<open>s'\<close> only once the steppers
  were idle: the loop condition was evaluated at least once, it was false in the last
  round, true in every round before, and each of those was followed by \<open>delay(10)\<close>.
\<close>

definition returned_when_idle :: "running \<Rightarrow> state \<Rightarrow> state \<Rightarrow> bool" where
  "returned_when_idle R s s' \<longleftrightarrow>
     polls s < polls s' \<and>
     \<not> anyRunning R (s\<lparr>polls := polls s' - 1\<rparr>) \<and>
     (\<forall>k. polls s \<le> k \<and> k < polls s' - 1 \<longrightarrow> anyRunning R (s\<lparr>polls := k\<rparr>)) \<and>
     millis s' = millis s + 10 * (polls s' - 1 - polls s)"

text \<open>Both channels are configured and their counters agree.\<close>

definition balanced :: "state \<Rightarrow> bool" where
  "balanced s \<longleftrightarrow>
     two_channels s \<and> steppers s ! 0 \<noteq> None \<and> steppers s ! 1 \<noteq> None \<and>
     pulseCounts s ! 0 = pulseCounts s ! 1"

text \<open>The state of v2.7 once both loops of a nonzero-speed move have run, and that of the
  earlier sketches.\<close>

definition issued :: "int32 \<Rightarrow> state \<Rightarrow> state" where
  "issued steps s =
     counted steps
       (sent [SetAcceleration (accelerationRate s), SetSpeedInHz (speedLevel s), Move steps]
         (emit (SerialPrint ''Acceleration: %d'' [accelerationRate s])
           (emit (SerialPrint ''Moving motors by %ld steps at speed index %d (%d Hz)''
                    [sint steps, currentSpeedIndex s, speedLevel s]) s)))"

definition issued_Basic :: "int32 \<Rightarrow> state \<Rightarrow> state" where
  "issued_Basic steps s = counted steps (sent [Move steps] s)"

section \<open>Concrete inputs\<close>

text \<open>A library that is idle at every poll, and one that keeps every stepper running for
  the first \<open>n\<close> polls.\<close>

definition idle_library :: running where
  "idle_library k i = False"

definition busy_library :: "nat \<Rightarrow> running" where
  "busy_library n k i = (k < n)"

text \<open>The state after \<open>setup()\<close> with both steppers connected, and with only X.\<close>

definition ready :: state where
  "ready = setup_sketch True True globals"

definition ready_X :: state where
  "ready_X = setup_sketch True False globals"

text \<open>What the start-up of v2.1 leaves in the globals and the steppers when both connect
  (acceleration 500, speed level 0); its display and serial output is left out. And the
  same after five presses of button B: index 5, 500 Hz.\<close>

definition ready_AdjSpeed :: state where
  "ready_AdjSpeed = globals\<lparr>steppers :=
     [Some [SetDirectionPin 17, SetAutoEnable True, SetAcceleration 500, SetSpeedInHz 0],
      Some [SetDirectionPin 13, SetAutoEnable True, SetAcceleration 500, SetSpeedInHz 0]]\<rparr>"

definition full_AdjSpeed :: state where
  "full_AdjSpeed = (updateSpeed_AdjSpeed ^^ 5) ready_AdjSpeed"

text \<open>v2.7 after one press of button B: speed level 1600 Hz, 20 percent; and after five:
  8000 Hz.\<close>

definition ready_100 :: state where
  "ready_100 = (updateSpeed ^^ 5) ready"


definition ready_20 :: state where
  "ready_20 = updateSpeed ready"

definition ready_X_20 :: state where
  "ready_X_20 = updateSpeed ready_X"

section \<open>Basic facts\<close>

lemma for_i_unfold: "for_i body s = body (Suc 0) (body 0 s)"
proof -
  have "[0..<2] = [0, Suc 0]" by (simp add: upt_rec)
  then show ?thesis by (simp add: for_i_def)
qed

lemma two_channels_shape:
  assumes "two_channels s"
  obtains a b p q where "steppers s = [a, b]" and "pulseCounts s = [p, q]"
proof -
  from assms have l: "length (steppers s) = 2" "length (pulseCounts s) = 2"
    by (simp_all add: two_channels_def)
  from l(1) obtain a b where "steppers s = [a, b]"
    by (auto simp: length_Suc_conv numeral_2_eq_2)
  moreover from l(2) obtain p q where "pulseCounts s = [p, q]"
    by (auto simp: length_Suc_conv numeral_2_eq_2)
  ultimately show thesis using that by blast
qed

lemma two_channels_emit [simp]: "two_channels (emit c s) = two_channels s"
  by (simp add: two_channels_def emit_def)

lemma speedLevel_emit [simp]: "speedLevel (emit c s) = speedLevel s"
  by (simp add: speedLevel_def emit_def)

lemma two_channels_sent [simp]: "two_channels (sent cs s) = two_channels s"
  by (simp add: two_channels_def sent_def)

lemma two_channels_counted [simp]: "two_channels s \<Longrightarrow> two_channels (counted steps s)"
  by (simp add: two_channels_def counted_def)

lemma two_channels_waited [simp]: "two_channels (waited n s) = two_channels s"
  by (simp add: two_channels_def waited_def)

subsection \<open>The loops over the two channels in closed form\<close>

lemma stop_loop:
  assumes "two_channels s"
  shows "for_i stop_body s = sent [SetSpeedInHz 0, StopMove] s"
proof -
  from assms obtain a b p q where sh: "steppers s = [a, b]" "pulseCounts s = [p, q]"
    by (rule two_channels_shape)
  show ?thesis
    by (cases a; cases b)
       (simp_all add: for_i_unfold stop_body_def invoke_def sent_def sh)
qed

lemma move_loop:
  assumes "two_channels s"
  shows "for_i (move_body steps) s =
           counted steps
             (sent [SetAcceleration (accelerationRate s), SetSpeedInHz (speedLevel s), Move steps] s)"
proof -
  from assms obtain a b p q where sh: "steppers s = [a, b]" "pulseCounts s = [p, q]"
    by (rule two_channels_shape)
  show ?thesis
    by (cases a; cases b)
       (simp_all add: for_i_unfold move_body_def invoke_def add_pulses_def sent_def counted_def
          speedLevel_def sh)
qed

lemma move_loop_Basic:
  assumes "two_channels s"
  shows "for_i (move_body_Basic steps) s = counted steps (sent [Move steps] s)"
proof -
  from assms obtain a b p q where sh: "steppers s = [a, b]" "pulseCounts s = [p, q]"
    by (rule two_channels_shape)
  show ?thesis
    by (cases a; cases b)
       (simp_all add: for_i_unfold move_body_Basic_def invoke_def add_pulses_def sent_def
          counted_def sh)
qed

lemma speed_loop:
  assumes "two_channels s"
  shows "for_i speed_body s = sent [SetSpeedInHz (speedLevel s)] s"
proof -
  from assms obtain a b p q where sh: "steppers s = [a, b]" "pulseCounts s = [p, q]"
    by (rule two_channels_shape)
  show ?thesis
    by (cases a; cases b)
       (simp_all add: for_i_unfold speed_body_def invoke_def sent_def speedLevel_def sh)
qed

lemma speed_loop_AdjSpeed:
  assumes "two_channels s"
  shows "for_i speed_body_AdjSpeed s = sent [SetSpeedInHz (speedLevel_AdjSpeed s)] s"
proof -
  from assms obtain a b p q where sh: "steppers s = [a, b]" "pulseCounts s = [p, q]"
    by (rule two_channels_shape)
  show ?thesis
    by (cases a; cases b)
       (simp_all add: for_i_unfold speed_body_AdjSpeed_def invoke_def sent_def
          speedLevel_AdjSpeed_def sh)
qed

text \<open>What \<open>sent\<close> and \<open>counted\<close> leave in entry \<open>i\<close>.\<close>

lemma steppers_sent:
  "two_channels s \<Longrightarrow> i < 2 \<Longrightarrow>
     steppers (sent cs s) ! i = map_option (\<lambda>obj. obj @ cs) (steppers s ! i)"
  by (simp add: sent_def two_channels_def)

lemma pulseCounts_counted:
  "two_channels s \<Longrightarrow> i < 2 \<Longrightarrow>
     pulseCounts (counted steps s) ! i =
       (if steppers s ! i \<noteq> None then pulseCounts s ! i + steps else pulseCounts s ! i)"
  by (simp add: counted_def two_channels_def)

lemma pulseCounts_counted_sent:
  "two_channels s \<Longrightarrow> i < 2 \<Longrightarrow>
     pulseCounts (counted steps (sent cs s)) ! i =
       (if steppers s ! i \<noteq> None then pulseCounts s ! i + steps else pulseCounts s ! i)"
  by (simp add: pulseCounts_counted steppers_sent) (simp add: sent_def)

subsection \<open>The completion loop\<close>

lemma first_idle_0: "\<not> anyRunning R s \<Longrightarrow> first_idle R s 0"
  by (simp add: first_idle_def)

lemma anyRunning_shift:
  "anyRunning R ((delay 10 (polled s))\<lparr>polls := polls (delay 10 (polled s)) + k\<rparr>)
     = anyRunning R (s\<lparr>polls := polls s + Suc k\<rparr>)"
  by (simp add: anyRunning_def delay_def polled_def)

lemma first_idle_Suc:
  assumes "anyRunning R s" and "first_idle R (delay 10 (polled s)) n"
  shows "first_idle R s (Suc n)"
proof -
  have "anyRunning R (s\<lparr>polls := polls s + k\<rparr>)" if "k < Suc n" for k
  proof (cases k)
    case 0
    with assms(1) show ?thesis by simp
  next
    case (Suc j)
    with that have "j < n" by simp
    with assms(2)
    have "anyRunning R ((delay 10 (polled s))\<lparr>polls := polls (delay 10 (polled s)) + j\<rparr>)"
      by (simp add: first_idle_def)
    then show ?thesis unfolding anyRunning_shift Suc .
  qed
  moreover have "\<not> anyRunning R (s\<lparr>polls := polls s + Suc n\<rparr>)"
    using assms(2) unfolding first_idle_def anyRunning_shift by simp
  ultimately show ?thesis unfolding first_idle_def by simp
qed

lemma first_idle_Suc_iff:
  assumes "first_idle R s (Suc n)"
  shows "anyRunning R s" and "first_idle R (delay 10 (polled s)) n"
proof -
  from assms have busy: "\<And>k. k < Suc n \<Longrightarrow> anyRunning R (s\<lparr>polls := polls s + k\<rparr>)"
    unfolding first_idle_def by simp
  from busy[of 0] show "anyRunning R s" by simp
  show "first_idle R (delay 10 (polled s)) n"
    using assms unfolding first_idle_def anyRunning_shift by auto
qed

lemma waited_0: "waited 0 s = polled s"
  by (simp add: waited_def polled_def)

lemma waited_Suc: "waited n (delay 10 (polled s)) = waited (Suc n) s"
  by (simp add: waited_def polled_def delay_def)

lemma wait_loop_step:
  assumes IH: "\<And>R s y. wl R s = Some y \<Longrightarrow> \<exists>n. first_idle R s n \<and> y = waited n s"
    and eq: "(if anyRunning R s then wl R (delay 10 (polled s)) else Some (polled s)) = Some s'"
  shows "\<exists>n. first_idle R s n \<and> s' = waited n s"
proof (cases "anyRunning R s")
  case False
  with eq have "s' = waited 0 s" by (simp add: waited_0)
  with False first_idle_0 show ?thesis by blast
next
  case True
  with eq have "wl R (delay 10 (polled s)) = Some s'" by simp
  from IH[OF this] obtain n where
    n: "first_idle R (delay 10 (polled s)) n" "s' = waited n (delay 10 (polled s))"
    by blast
  from first_idle_Suc[OF True n(1)] n(2) show ?thesis
    unfolding waited_Suc by blast
qed

text \<open>If the loop returns, it has seen busy rounds only, then one idle round.\<close>

lemma wait_loop_result:
  "wait_loop R s = Some s' \<Longrightarrow> \<exists>n. first_idle R s n \<and> s' = waited n s"
  by (rule wait_loop.raw_induct
        [where P = "\<lambda>R s s'. \<exists>n. first_idle R s n \<and> s' = waited n s"])
     (rule wait_loop_step)

text \<open>And it does return as soon as there is an idle round.\<close>

lemma wait_loop_returns:
  "first_idle R s n \<Longrightarrow> wait_loop R s = Some (waited n s)"
proof (induction n arbitrary: s)
  case 0
  then have "\<not> anyRunning R s" by (simp add: first_idle_def)
  then show ?case by (subst wait_loop.simps) (simp add: waited_0)
next
  case (Suc n)
  from first_idle_Suc_iff[OF Suc.prems]
  have run: "anyRunning R s" and "first_idle R (delay 10 (polled s)) n" .
  from Suc.IH[OF this(2)] run show ?case
    by (subst wait_loop.simps) (simp add: waited_Suc)
qed

subsection \<open>moveBothMotors in closed form\<close>

lemma issued_fields [simp]:
  "currentSpeedIndex (issued steps s) = currentSpeedIndex s"
  "accelerationRate (issued steps s) = accelerationRate s"
  "revolutionsPerMove (issued steps s) = revolutionsPerMove s"
  "null_deref (issued steps s) = null_deref s"
  "polls (issued steps s) = polls s"
  "millis (issued steps s) = millis s"
  by (simp_all add: issued_def counted_def sent_def emit_def)

lemma issued_Basic_fields [simp]:
  "currentSpeedIndex (issued_Basic steps s) = currentSpeedIndex s"
  "accelerationRate (issued_Basic steps s) = accelerationRate s"
  "revolutionsPerMove (issued_Basic steps s) = revolutionsPerMove s"
  "null_deref (issued_Basic steps s) = null_deref s"
  "polls (issued_Basic steps s) = polls s"
  "millis (issued_Basic steps s) = millis s"
  "io (issued_Basic steps s) = io s"
  by (simp_all add: issued_Basic_def counted_def sent_def)

lemma two_channels_issued [simp]: "two_channels s \<Longrightarrow> two_channels (issued steps s)"
  by (simp add: issued_def)

lemma two_channels_issued_Basic [simp]: "two_channels s \<Longrightarrow> two_channels (issued_Basic steps s)"
  by (simp add: issued_Basic_def)

lemma fields_emit [simp]:
  "accelerationRate (emit c s) = accelerationRate s"
  "revolutionsPerMove (emit c s) = revolutionsPerMove s"
  "currentSpeedIndex (emit c s) = currentSpeedIndex s"
  "null_deref (emit c s) = null_deref s"
  "polls (emit c s) = polls s"
  "millis (emit c s) = millis s"
  by (simp_all add: emit_def)

lemma steppers_emit [simp]: "steppers (emit c s) = steppers s"
  by (simp add: emit_def)

lemma pulseCounts_emit [simp]: "pulseCounts (emit c s) = pulseCounts s"
  by (simp add: emit_def)

lemma steppers_counted [simp]: "steppers (counted steps s) = steppers s"
  by (simp add: counted_def)

lemma steppers_waited [simp]: "steppers (waited n s) = steppers s"
  by (simp add: waited_def)

lemma pulseCounts_waited [simp]: "pulseCounts (waited n s) = pulseCounts s"
  by (simp add: waited_def)

lemma steppers_issued:
  "two_channels s \<Longrightarrow> i < 2 \<Longrightarrow>
     steppers (issued steps s) ! i =
       map_option (\<lambda>obj. obj @ [SetAcceleration (accelerationRate s),
                                  SetSpeedInHz (speedLevel s), Move steps]) (steppers s ! i)"
  by (simp add: issued_def steppers_sent)

lemma steppers_issued_Basic:
  "two_channels s \<Longrightarrow> i < 2 \<Longrightarrow>
     steppers (issued_Basic steps s) ! i = map_option (\<lambda>obj. obj @ [Move steps]) (steppers s ! i)"
  by (simp add: issued_Basic_def steppers_sent)

lemma pulseCounts_issued:
  "two_channels s \<Longrightarrow> i < 2 \<Longrightarrow>
     pulseCounts (issued steps s) ! i =
       (if steppers s ! i \<noteq> None then pulseCounts s ! i + steps else pulseCounts s ! i)"
  by (simp add: issued_def pulseCounts_counted_sent)

lemma pulseCounts_issued_Basic:
  "two_channels s \<Longrightarrow> i < 2 \<Longrightarrow>
     pulseCounts (issued_Basic steps s) ! i =
       (if steppers s ! i \<noteq> None then pulseCounts s ! i + steps else pulseCounts s ! i)"
  by (simp add: issued_Basic_def pulseCounts_counted_sent)

text \<open>The loop condition only looks at which pointers are null and at the poll round.\<close>

lemma anyRunning_cong:
  assumes "steppers t ! 0 = None \<longleftrightarrow> steppers s ! 0 = None"
    and "steppers t ! 1 = None \<longleftrightarrow> steppers s ! 1 = None"
  shows "anyRunning R (t\<lparr>polls := k\<rparr>) = anyRunning R (s\<lparr>polls := k\<rparr>)"
  using assms by (simp add: anyRunning_def)

lemma first_idle_cong:
  assumes "steppers t ! 0 = None \<longleftrightarrow> steppers s ! 0 = None"
    and "steppers t ! 1 = None \<longleftrightarrow> steppers s ! 1 = None"
    and "polls t = polls s"
  shows "first_idle R t n = first_idle R s n"
  unfolding first_idle_def assms(3) anyRunning_cong[OF assms(1,2)] ..

lemma first_idle_issued:
  assumes "two_channels s"
  shows "first_idle R (issued steps s) n = first_idle R s n"
proof (rule first_idle_cong)
  show "steppers (issued steps s) ! 0 = None \<longleftrightarrow> steppers s ! 0 = None"
    using assms by (simp add: steppers_issued)
  show "steppers (issued steps s) ! 1 = None \<longleftrightarrow> steppers s ! 1 = None"
    using assms by (simp add: steppers_issued)
qed simp

lemma first_idle_issued_Basic:
  assumes "two_channels s"
  shows "first_idle R (issued_Basic steps s) n = first_idle R s n"
proof (rule first_idle_cong)
  show "steppers (issued_Basic steps s) ! 0 = None \<longleftrightarrow> steppers s ! 0 = None"
    using assms by (simp add: steppers_issued_Basic)
  show "steppers (issued_Basic steps s) ! 1 = None \<longleftrightarrow> steppers s ! 1 = None"
    using assms by (simp add: steppers_issued_Basic)
qed simp

lemma moveBothMotors_zero:
  assumes "two_channels s" and "speedLevel s = 0"
  shows "moveBothMotors R steps s =
           Some (sent [SetSpeedInHz 0, StopMove]
                  (emit (SerialPrint ''Speed is 0, skipping move and stopping motors.'' []) s))"
  using assms by (simp add: moveBothMotors_def stop_loop)

lemma moveBothMotors_nonzero:
  assumes "two_channels s" and "speedLevel s \<noteq> 0"
  shows "moveBothMotors R steps s =
           map_option (emit (SerialPrint ''Move complete.'' [])) (wait_loop R (issued steps s))"
proof -
  let ?e = "emit (SerialPrint ''Acceleration: %d'' [accelerationRate s])
              (emit (SerialPrint ''Moving motors by %ld steps at speed index %d (%d Hz)''
                       [sint steps, currentSpeedIndex s, speedLevel s]) s)"
  have "two_channels ?e" using assms(1) by simp
  from move_loop[OF this, of steps]
  have "for_i (move_body steps) ?e = issued steps s"
    by (simp add: issued_def)
  with assms(2) show ?thesis by (simp add: moveBothMotors_def)
qed

lemma moveBothMotors_Basic_eq:
  assumes "two_channels s"
  shows "moveBothMotors_Basic R steps s = wait_loop R (issued_Basic steps s)"
  using assms by (simp add: moveBothMotors_Basic_def move_loop_Basic issued_Basic_def)

lemma moveBothMotors_result:
  assumes "two_channels s" and "speedLevel s \<noteq> 0" and "moveBothMotors R steps s = Some s'"
  obtains n where "first_idle R s n"
    and "s' = emit (SerialPrint ''Move complete.'' []) (waited n (issued steps s))"
proof -
  from assms obtain t where t: "wait_loop R (issued steps s) = Some t"
    and s': "s' = emit (SerialPrint ''Move complete.'' []) t"
    by (auto simp: moveBothMotors_nonzero)
  from wait_loop_result[OF t] obtain n where
    "first_idle R (issued steps s) n" and "t = waited n (issued steps s)" by blast
  with s' assms(1) that show thesis by (simp add: first_idle_issued)
qed

lemma moveBothMotors_returns:
  assumes "two_channels s" and "speedLevel s \<noteq> 0" and "first_idle R s n"
  shows "moveBothMotors R steps s =
           Some (emit (SerialPrint ''Move complete.'' []) (waited n (issued steps s)))"
proof -
  from assms have "first_idle R (issued steps s) n" by (simp add: first_idle_issued)
  from wait_loop_returns[OF this] assms(1,2) show ?thesis
    by (simp add: moveBothMotors_nonzero)
qed

lemma moveBothMotors_Basic_result:
  assumes "two_channels s" and "moveBothMotors_Basic R steps s = Some s'"
  obtains n where "first_idle R s n" and "s' = waited n (issued_Basic steps s)"
proof -
  from assms have t: "wait_loop R (issued_Basic steps s) = Some s'"
    by (simp add: moveBothMotors_Basic_eq)
  from wait_loop_result[OF t] obtain n where
    "first_idle R (issued_Basic steps s) n" and "s' = waited n (issued_Basic steps s)" by blast
  with assms(1) that show thesis by (simp add: first_idle_issued_Basic)
qed

lemma moveBothMotors_Basic_returns:
  assumes "two_channels s" and "first_idle R s n"
  shows "moveBothMotors_Basic R steps s = Some (waited n (issued_Basic steps s))"
proof -
  from assms have "first_idle R (issued_Basic steps s) n" by (simp add: first_idle_issued_Basic)
  from wait_loop_returns[OF this] assms(1) show ?thesis
    by (simp add: moveBothMotors_Basic_eq)
qed

subsection \<open>updateSpeed in closed form\<close>

lemma advance_fields [simp]:
  "steppers (advance c s) = steppers s"
  "pulseCounts (advance c s) = pulseCounts s"
  "accelerationRate (advance c s) = accelerationRate s"
  "revolutionsPerMove (advance c s) = revolutionsPerMove s"
  "null_deref (advance c s) = null_deref s"
  "polls (advance c s) = polls s"
  "millis (advance c s) = millis s"
  "io (advance c s) = io s"
  by (simp_all add: advance_def Let_def)

lemma currentSpeedIndex_advance:
  "currentSpeedIndex (advance c s) =
     (if currentSpeedIndex s + 1 \<ge> c then 0 else currentSpeedIndex s + 1)"
  by (simp add: advance_def Let_def)

lemma two_channels_advance [simp]: "two_channels (advance c s) = two_channels s"
  by (simp add: two_channels_def)

lemma sent_fields [simp]:
  "pulseCounts (sent cs s) = pulseCounts s"
  "currentSpeedIndex (sent cs s) = currentSpeedIndex s"
  "accelerationRate (sent cs s) = accelerationRate s"
  "revolutionsPerMove (sent cs s) = revolutionsPerMove s"
  "null_deref (sent cs s) = null_deref s"
  "polls (sent cs s) = polls s"
  "millis (sent cs s) = millis s"
  "io (sent cs s) = io s"
  by (simp_all add: sent_def)

lemma drawInstructions_fields [simp]:
  "steppers (drawInstructions s) = steppers s"
  "pulseCounts (drawInstructions s) = pulseCounts s"
  "currentSpeedIndex (drawInstructions s) = currentSpeedIndex s"
  "accelerationRate (drawInstructions s) = accelerationRate s"
  "revolutionsPerMove (drawInstructions s) = revolutionsPerMove s"
  "null_deref (drawInstructions s) = null_deref s"
  "polls (drawInstructions s) = polls s"
  "millis (drawInstructions s) = millis s"
  by (simp_all add: drawInstructions_def)

lemma drawInstructions_AdjSpeed_fields [simp]:
  "steppers (drawInstructions_AdjSpeed s) = steppers s"
  "pulseCounts (drawInstructions_AdjSpeed s) = pulseCounts s"
  "currentSpeedIndex (drawInstructions_AdjSpeed s) = currentSpeedIndex s"
  "null_deref (drawInstructions_AdjSpeed s) = null_deref s"
  by (simp_all add: drawInstructions_AdjSpeed_def)

lemma drawStatus_fields [simp]:
  "steppers (drawStatus s) = steppers s"
  "pulseCounts (drawStatus s) = pulseCounts s"
  "currentSpeedIndex (drawStatus s) = currentSpeedIndex s"
  "accelerationRate (drawStatus s) = accelerationRate s"
  "revolutionsPerMove (drawStatus s) = revolutionsPerMove s"
  "null_deref (drawStatus s) = null_deref s"
  "polls (drawStatus s) = polls s"
  "millis (drawStatus s) = millis s"
  by (simp_all add: drawStatus_def)

lemma two_channels_draw [simp]:
  "two_channels (drawInstructions s) = two_channels s"
  "two_channels (drawInstructions_AdjSpeed s) = two_channels s"
  "two_channels (drawStatus s) = two_channels s"
  by (simp_all add: two_channels_def)

lemma updateSpeed_eq:
  assumes "two_channels s"
  shows "updateSpeed s =
     drawInstructions
       (sent (if speedLevel (advance speedLevelsCount s) = 0 then [SetSpeedInHz 0, StopMove]
              else [SetSpeedInHz (speedLevel (advance speedLevelsCount s))])
          (emit (SerialPrint ''Speed changed to index %d (%d Hz = %d%%)''
                   [currentSpeedIndex (advance speedLevelsCount s),
                    speedLevel (advance speedLevelsCount s),
                    speedPercentage (advance speedLevelsCount s)])
             (advance speedLevelsCount s)))"
  using assms by (simp add: updateSpeed_def Let_def stop_loop speed_loop)

lemma updateSpeed_AdjSpeed_eq:
  assumes "two_channels s"
  shows "updateSpeed_AdjSpeed s =
     drawInstructions_AdjSpeed
       (sent [SetSpeedInHz (speedLevel_AdjSpeed (advance speedLevelsCount_AdjSpeed s))]
          (advance speedLevelsCount_AdjSpeed s))"
  using assms by (simp add: updateSpeed_AdjSpeed_def speed_loop_AdjSpeed)

text \<open>The index never depends on the steppers, so no shape is assumed here.\<close>

lemma currentSpeedIndex_invoke [simp]:
  "currentSpeedIndex (invoke i c s) = currentSpeedIndex s"
  by (simp add: invoke_def split: option.split)

lemma pulseCounts_invoke [simp]: "pulseCounts (invoke i c s) = pulseCounts s"
  by (simp add: invoke_def split: option.split)

lemma currentSpeedIndex_loops [simp]:
  "currentSpeedIndex (for_i stop_body s) = currentSpeedIndex s"
  "currentSpeedIndex (for_i speed_body s) = currentSpeedIndex s"
  "currentSpeedIndex (for_i speed_body_AdjSpeed s) = currentSpeedIndex s"
  by (simp_all add: for_i_unfold stop_body_def speed_body_def speed_body_AdjSpeed_def)

lemma pulseCounts_loops [simp]:
  "pulseCounts (for_i stop_body s) = pulseCounts s"
  "pulseCounts (for_i speed_body s) = pulseCounts s"
  "pulseCounts (for_i speed_body_AdjSpeed s) = pulseCounts s"
  by (simp_all add: for_i_unfold stop_body_def speed_body_def speed_body_AdjSpeed_def)

lemma currentSpeedIndex_updateSpeed:
  "currentSpeedIndex (updateSpeed s) =
     (if currentSpeedIndex s + 1 \<ge> speedLevelsCount then 0 else currentSpeedIndex s + 1)"
  by (simp add: updateSpeed_def Let_def currentSpeedIndex_advance)

lemma currentSpeedIndex_updateSpeed_AdjSpeed:
  "currentSpeedIndex (updateSpeed_AdjSpeed s) =
     (if currentSpeedIndex s + 1 \<ge> speedLevelsCount_AdjSpeed then 0 else currentSpeedIndex s + 1)"
  by (simp add: updateSpeed_AdjSpeed_def currentSpeedIndex_advance)

lemma pulseCounts_updateSpeed [simp]: "pulseCounts (updateSpeed s) = pulseCounts s"
  by (simp add: updateSpeed_def Let_def)

lemma pulseCounts_updateSpeed_AdjSpeed [simp]:
  "pulseCounts (updateSpeed_AdjSpeed s) = pulseCounts s"
  by (simp add: updateSpeed_AdjSpeed_def)

lemma speedLevelsCount_eq [simp]: "speedLevelsCount = 6" "speedLevelsCount_AdjSpeed = 6"
  by (simp_all add: speedLevelsCount_def speedLevels_def speedLevelsCount_AdjSpeed_def
        speedLevels_AdjSpeed_def)

lemma two_channels_updateSpeed [simp]: "two_channels s \<Longrightarrow> two_channels (updateSpeed s)"
  by (simp add: updateSpeed_eq)

lemma index_ok_updateSpeed: "index_ok s \<Longrightarrow> index_ok (updateSpeed s)"
  by (simp add: index_ok_def currentSpeedIndex_updateSpeed)

subsection \<open>The state after start-up\<close>

lemma emits_fields [simp]:
  "steppers (emits cs s) = steppers s"
  "pulseCounts (emits cs s) = pulseCounts s"
  "currentSpeedIndex (emits cs s) = currentSpeedIndex s"
  "accelerationRate (emits cs s) = accelerationRate s"
  "revolutionsPerMove (emits cs s) = revolutionsPerMove s"
  "null_deref (emits cs s) = null_deref s"
  "polls (emits cs s) = polls s"
  "millis (emits cs s) = millis s"
  unfolding emits_def by (induction cs arbitrary: s; simp)+

lemma setup_loop_frame [simp]:
  "pulseCounts (for_i setup_body s) = pulseCounts s"
  "currentSpeedIndex (for_i setup_body s) = currentSpeedIndex s"
  by (simp_all add: for_i_unfold setup_body_def)

lemma setup_loop:
  assumes "two_channels s"
  shows "steppers (for_i setup_body s) =
           [map_option (\<lambda>obj. obj @ [SetDirectionPin X_DIR_PIN, SetAutoEnable True,
               SetAcceleration (accelerationRate s), SetSpeedInHz (speedLevel s)]) (steppers s ! 0),
            map_option (\<lambda>obj. obj @ [SetDirectionPin Y_DIR_PIN, SetAutoEnable True,
               SetAcceleration (accelerationRate s), SetSpeedInHz (speedLevel s)]) (steppers s ! 1)]"
    and "null_deref (for_i setup_body s) = null_deref s"
    and "accelerationRate (for_i setup_body s) = accelerationRate s"
    and "revolutionsPerMove (for_i setup_body s) = revolutionsPerMove s"
    and "polls (for_i setup_body s) = polls s"
    and "millis (for_i setup_body s) = millis s"
proof -
  from assms obtain a b p q where sh: "steppers s = [a, b]" "pulseCounts s = [p, q]"
    by (rule two_channels_shape)
  show "steppers (for_i setup_body s) =
           [map_option (\<lambda>obj. obj @ [SetDirectionPin X_DIR_PIN, SetAutoEnable True,
               SetAcceleration (accelerationRate s), SetSpeedInHz (speedLevel s)]) (steppers s ! 0),
            map_option (\<lambda>obj. obj @ [SetDirectionPin Y_DIR_PIN, SetAutoEnable True,
               SetAcceleration (accelerationRate s), SetSpeedInHz (speedLevel s)]) (steppers s ! 1)]"
    by (cases a; cases b)
       (simp_all add: for_i_unfold setup_body_def invoke_def emit_def speedLevel_def sh)
  show "null_deref (for_i setup_body s) = null_deref s"
    by (cases a; cases b)
       (simp_all add: for_i_unfold setup_body_def invoke_def emit_def sh)
  show "accelerationRate (for_i setup_body s) = accelerationRate s"
    by (cases a; cases b)
       (simp_all add: for_i_unfold setup_body_def invoke_def emit_def sh)
  show "revolutionsPerMove (for_i setup_body s) = revolutionsPerMove s"
    by (cases a; cases b)
       (simp_all add: for_i_unfold setup_body_def invoke_def emit_def sh)
  show "polls (for_i setup_body s) = polls s"
    by (cases a; cases b)
       (simp_all add: for_i_unfold setup_body_def invoke_def emit_def sh)
  show "millis (for_i setup_body s) = millis s"
    by (cases a; cases b)
       (simp_all add: for_i_unfold setup_body_def invoke_def emit_def sh)
qed

lemma setup_sketch_fields:
  "pulseCounts (setup_sketch x y globals) = [0, 0]"
  "currentSpeedIndex (setup_sketch x y globals) = 0"
  "accelerationRate (setup_sketch x y globals) = 2000"
  "revolutionsPerMove (setup_sketch x y globals) = 5"
  "polls (setup_sketch x y globals) = 0"
  "millis (setup_sketch x y globals) = 0"
  "null_deref (setup_sketch x y globals) = False"
  "steppers (setup_sketch x y globals) =
     [if x then Some [SetDirectionPin 17, SetAutoEnable True, SetAcceleration 2000, SetSpeedInHz 0]
      else None,
      if y then Some [SetDirectionPin 13, SetAutoEnable True, SetAcceleration 2000, SetSpeedInHz 0]
      else None]"
proof -
  let ?pre = "emits [M5Begin, SerialBegin 115200, SerialPrint ''Setup starting...'' [],
                      LcdSetTextSize 2, LcdSetRotation 1, LcdFillScreen, LcdSetCursor 0 0,
                      LcdPrint ''Stepper Ready (1/16 Step)'' [],
                      LcdPrint ''A: FWD 5rev  C: REV 5rev'' [], EngineInit]"
  let ?c = "(?pre globals)\<lparr>steppers := [stepperConnectToPin X_STEP_PIN x, stepperConnectToPin Y_STEP_PIN y]\<rparr>"
  have eq: "setup_sketch x y globals =
      emit (SerialPrint ''Setup complete.'' [])
        (drawStatus (drawInstructions
          (emits [WireBegin 21 22 400000, DriverInit, DriverResetMotor 0 0,
                      DriverResetMotor 1 0, DriverEnableMotor 1] (for_i setup_body ?c))))"
    by (simp add: setup_sketch_def Let_def globals_def)
  have tc: "two_channels ?c" by (simp add: two_channels_def globals_def)
  have g: "accelerationRate ?c = 2000" "revolutionsPerMove ?c = 5" "polls ?c = 0"
    "millis ?c = 0" "null_deref ?c = False" "pulseCounts ?c = [0, 0]" "currentSpeedIndex ?c = 0"
    "speedLevel ?c = 0"
    by (simp_all add: globals_def speedLevel_def speedLevels_def)
  note l = setup_loop[OF tc]
  show "pulseCounts (setup_sketch x y globals) = [0, 0]"
    unfolding eq by (simp add: g)
  show "currentSpeedIndex (setup_sketch x y globals) = 0"
    unfolding eq by (simp add: g)
  show "accelerationRate (setup_sketch x y globals) = 2000"
    unfolding eq by (simp add: g l)
  show "revolutionsPerMove (setup_sketch x y globals) = 5"
    unfolding eq by (simp add: g l)
  show "polls (setup_sketch x y globals) = 0"
    unfolding eq by (simp add: g l)
  show "millis (setup_sketch x y globals) = 0"
    unfolding eq by (simp add: g l)
  show "null_deref (setup_sketch x y globals) = False"
    unfolding eq by (simp add: g l)
  show "steppers (setup_sketch x y globals) =
     [if x then Some [SetDirectionPin 17, SetAutoEnable True, SetAcceleration 2000, SetSpeedInHz 0]
      else None,
      if y then Some [SetDirectionPin 13, SetAutoEnable True, SetAcceleration 2000, SetSpeedInHz 0]
      else None]"
  proof -
    have "steppers (setup_sketch x y globals) = steppers (for_i setup_body ?c)"
      unfolding eq by simp
    also have "\<dots> = [map_option (\<lambda>obj. obj @ [SetDirectionPin X_DIR_PIN, SetAutoEnable True,
               SetAcceleration 2000, SetSpeedInHz 0]) (stepperConnectToPin X_STEP_PIN x),
            map_option (\<lambda>obj. obj @ [SetDirectionPin Y_DIR_PIN, SetAutoEnable True,
               SetAcceleration 2000, SetSpeedInHz 0]) (stepperConnectToPin Y_STEP_PIN y)]"
      unfolding l(1) g by simp
    finally show ?thesis
      by (simp add: stepperConnectToPin_def X_DIR_PIN_def Y_DIR_PIN_def)
  qed
qed

lemma two_channels_setup_sketch [simp]: "two_channels (setup_sketch x y globals)"
  by (simp add: two_channels_def setup_sketch_fields)

lemma index_ok_setup_sketch [simp]: "index_ok (setup_sketch x y globals)"
  by (simp add: index_ok_def setup_sketch_fields)

subsection \<open>Concrete states\<close>

lemma ready_fields:
  "two_channels ready" "index_ok ready"
  "pulseCounts ready = [0, 0]" "currentSpeedIndex ready = 0" "polls ready = 0"
  "millis ready = 0" "null_deref ready = False"
  "steppers ready =
     [Some [SetDirectionPin 17, SetAutoEnable True, SetAcceleration 2000, SetSpeedInHz 0],
      Some [SetDirectionPin 13, SetAutoEnable True, SetAcceleration 2000, SetSpeedInHz 0]]"
  by (simp_all add: ready_def setup_sketch_fields)

lemma ready_X_fields:
  "two_channels ready_X" "index_ok ready_X"
  "pulseCounts ready_X = [0, 0]" "currentSpeedIndex ready_X = 0" "polls ready_X = 0"
  "millis ready_X = 0" "null_deref ready_X = False"
  "steppers ready_X =
     [Some [SetDirectionPin 17, SetAutoEnable True, SetAcceleration 2000, SetSpeedInHz 0], None]"
  by (simp_all add: ready_X_def setup_sketch_fields)

lemma speedLevel_at:
  "currentSpeedIndex s = 0 \<Longrightarrow> speedLevel s = 0"
  "currentSpeedIndex s = 1 \<Longrightarrow> speedLevel s = 1600"
  "currentSpeedIndex s = 5 \<Longrightarrow> speedLevel s = 8000"
  by (simp_all add: speedLevel_def speedLevels_def)

lemma ready_20_fields:
  "two_channels ready_20" "index_ok ready_20"
  "pulseCounts ready_20 = [0, 0]" "currentSpeedIndex ready_20 = 1" "polls ready_20 = 0"
  "millis ready_20 = 0" "null_deref ready_20 = False" "speedLevel ready_20 = 1600"
  "steppers ready_20 =
     [Some [SetDirectionPin 17, SetAutoEnable True, SetAcceleration 2000, SetSpeedInHz 0,
            SetSpeedInHz 1600],
      Some [SetDirectionPin 13, SetAutoEnable True, SetAcceleration 2000, SetSpeedInHz 0,
            SetSpeedInHz 1600]]"
proof -
  have i: "currentSpeedIndex (advance 6 ready) = 1"
    by (simp add: currentSpeedIndex_advance ready_fields)
  note v = speedLevel_at(2)[OF i]
  show "two_channels ready_20" by (simp add: ready_20_def ready_fields)
  show "index_ok ready_20" by (simp add: ready_20_def index_ok_updateSpeed ready_fields)
  show "pulseCounts ready_20 = [0, 0]" by (simp add: ready_20_def ready_fields)
  show c: "currentSpeedIndex ready_20 = 1"
    by (simp add: ready_20_def currentSpeedIndex_updateSpeed ready_fields)
  show "speedLevel ready_20 = 1600" by (rule speedLevel_at(2)[OF c])
  show "polls ready_20 = 0" "millis ready_20 = 0" "null_deref ready_20 = False"
    by (simp_all add: ready_20_def updateSpeed_eq ready_fields)
  show "steppers ready_20 =
     [Some [SetDirectionPin 17, SetAutoEnable True, SetAcceleration 2000, SetSpeedInHz 0,
            SetSpeedInHz 1600],
      Some [SetDirectionPin 13, SetAutoEnable True, SetAcceleration 2000, SetSpeedInHz 0,
            SetSpeedInHz 1600]]"
    by (simp add: ready_20_def updateSpeed_eq ready_fields v sent_def)
qed

lemma ready_X_20_fields:
  "two_channels ready_X_20" "index_ok ready_X_20"
  "pulseCounts ready_X_20 = [0, 0]" "currentSpeedIndex ready_X_20 = 1" "polls ready_X_20 = 0"
  "millis ready_X_20 = 0" "null_deref ready_X_20 = False" "speedLevel ready_X_20 = 1600"
  "steppers ready_X_20 =
     [Some [SetDirectionPin 17, SetAutoEnable True, SetAcceleration 2000, SetSpeedInHz 0,
            SetSpeedInHz 1600], None]"
proof -
  have i: "currentSpeedIndex (advance 6 ready_X) = 1"
    by (simp add: currentSpeedIndex_advance ready_X_fields)
  note v = speedLevel_at(2)[OF i]
  show "two_channels ready_X_20" by (simp add: ready_X_20_def ready_X_fields)
  show "index_ok ready_X_20" by (simp add: ready_X_20_def index_ok_updateSpeed ready_X_fields)
  show "pulseCounts ready_X_20 = [0, 0]" by (simp add: ready_X_20_def ready_X_fields)
  show c: "currentSpeedIndex ready_X_20 = 1"
    by (simp add: ready_X_20_def currentSpeedIndex_updateSpeed ready_X_fields)
  show "speedLevel ready_X_20 = 1600" by (rule speedLevel_at(2)[OF c])
  show "polls ready_X_20 = 0" "millis ready_X_20 = 0" "null_deref ready_X_20 = False"
    by (simp_all add: ready_X_20_def updateSpeed_eq ready_X_fields)
  show "steppers ready_X_20 =
     [Some [SetDirectionPin 17, SetAutoEnable True, SetAcceleration 2000, SetSpeedInHz 0,
            SetSpeedInHz 1600], None]"
    by (simp add: ready_X_20_def updateSpeed_eq ready_X_fields v sent_def)
qed

text \<open>With a stepper on channel 0 and the poll counter at 0, a library that is busy for
  \<open>n\<close> rounds is first idle in round \<open>n\<close>.\<close>

lemma first_idle_busy_library:
  assumes "steppers s ! 0 \<noteq> None" and "polls s = 0"
  shows "first_idle (busy_library n) s n"
  using assms by (simp add: first_idle_def anyRunning_def busy_library_def)

lemma first_idle_idle_library: "first_idle idle_library s 0"
  by (simp add: first_idle_def anyRunning_def idle_library_def)

subsection \<open>Signed reading of a counter update\<close>

lemma sint_add_in_range:
  fixes a b :: int32
  assumes "- (2 ^ 31) \<le> sint a + sint b" and "sint a + sint b < 2 ^ 31"
  shows "sint (a + b) = sint a + sint b"
proof -
  have "sint (a + b) = signed_take_bit 31 (sint a + sint b)"
    by (simp add: sint_word_ariths)
  also have "\<dots> = sint a + sint b"
    using assms by (simp add: signed_take_bit_int_eq_self)
  finally show ?thesis .
qed

subsection \<open>The index under updateSpeed\<close>

lemma wrap_is_mod:
  "0 \<le> m \<Longrightarrow> m < 6 \<Longrightarrow> (if m + 1 \<ge> 6 then 0 else m + 1) = (m + 1) mod (6::int)"
  by (cases "m = 5") auto

lemma index_ok_iff [simp]:
  "index_ok s \<longleftrightarrow> 0 \<le> currentSpeedIndex s \<and> currentSpeedIndex s < 6"
  "index_ok_AdjSpeed s \<longleftrightarrow> 0 \<le> currentSpeedIndex s \<and> currentSpeedIndex s < 6"
  by (simp_all add: index_ok_def index_ok_AdjSpeed_def)

lemma index_funpow:
  assumes "0 \<le> currentSpeedIndex s" and "currentSpeedIndex s < 6"
  shows "currentSpeedIndex ((updateSpeed ^^ n) s) = (currentSpeedIndex s + int n) mod 6"
proof (induction n)
  case 0
  with assms show ?case by simp
next
  case (Suc n)
  let ?m = "(currentSpeedIndex s + int n) mod 6"
  have "currentSpeedIndex ((updateSpeed ^^ Suc n) s) = (if ?m + 1 \<ge> 6 then 0 else ?m + 1)"
    by (simp add: currentSpeedIndex_updateSpeed Suc.IH)
  also have "\<dots> = (?m + 1) mod 6"
    by (rule wrap_is_mod) simp_all
  also have "\<dots> = (currentSpeedIndex s + int n + 1) mod 6"
    by (simp add: mod_add_left_eq)
  also have "\<dots> = (currentSpeedIndex s + int (Suc n)) mod 6"
    by (simp add: algebra_simps)
  finally show ?case .
qed

lemma index_funpow_AdjSpeed:
  assumes "0 \<le> currentSpeedIndex s" and "currentSpeedIndex s < 6"
  shows "currentSpeedIndex ((updateSpeed_AdjSpeed ^^ n) s) = (currentSpeedIndex s + int n) mod 6"
proof (induction n)
  case 0
  with assms show ?case by simp
next
  case (Suc n)
  let ?m = "(currentSpeedIndex s + int n) mod 6"
  have "currentSpeedIndex ((updateSpeed_AdjSpeed ^^ Suc n) s) = (if ?m + 1 \<ge> 6 then 0 else ?m + 1)"
    by (simp add: currentSpeedIndex_updateSpeed_AdjSpeed Suc.IH)
  also have "\<dots> = (?m + 1) mod 6"
    by (rule wrap_is_mod) simp_all
  also have "\<dots> = (currentSpeedIndex s + int n + 1) mod 6"
    by (simp add: mod_add_left_eq)
  also have "\<dots> = (currentSpeedIndex s + int (Suc n)) mod 6"
    by (simp add: algebra_simps)
  finally show ?case .
qed

lemma two_channels_funpow: "two_channels s \<Longrightarrow> two_channels ((updateSpeed ^^ n) s)"
  by (induction n) simp_all

lemma two_channels_updateSpeed_AdjSpeed [simp]:
  "two_channels s \<Longrightarrow> two_channels (updateSpeed_AdjSpeed s)"
  by (simp add: updateSpeed_AdjSpeed_eq)

subsection \<open>The index under the other operations\<close>

lemma currentSpeedIndex_add_pulses [simp]:
  "currentSpeedIndex (add_pulses i steps s) = currentSpeedIndex s"
  by (simp add: add_pulses_def)

lemma currentSpeedIndex_waited [simp]: "currentSpeedIndex (waited n s) = currentSpeedIndex s"
  by (simp add: waited_def)

lemma currentSpeedIndex_move_loops [simp]:
  "currentSpeedIndex (for_i (move_body steps) s) = currentSpeedIndex s"
  "currentSpeedIndex (for_i (move_body_Basic steps) s) = currentSpeedIndex s"
  by (simp_all add: for_i_unfold move_body_def move_body_Basic_def)

lemma currentSpeedIndex_moveBothMotors:
  assumes "moveBothMotors R steps s = Some s'"
  shows "currentSpeedIndex s' = currentSpeedIndex s"
proof (cases "speedLevel s = 0")
  case True
  with assms show ?thesis by (auto simp: moveBothMotors_def)
next
  case False
  with assms obtain t u where t: "wait_loop R u = Some t"
    and u: "currentSpeedIndex u = currentSpeedIndex s"
    and s': "s' = emit (SerialPrint ''Move complete.'' []) t"
    by (auto simp: moveBothMotors_def)
  from wait_loop_result[OF t] obtain n where "t = waited n u" by blast
  with u s' show ?thesis by simp
qed

lemma currentSpeedIndex_moveBothMotors_Basic:
  assumes "moveBothMotors_Basic R steps s = Some s'"
  shows "currentSpeedIndex s' = currentSpeedIndex s"
proof -
  from assms have "wait_loop R (for_i (move_body_Basic steps) s) = Some s'"
    by (simp add: moveBothMotors_Basic_def)
  from wait_loop_result[OF this] obtain n where
    "s' = waited n (for_i (move_body_Basic steps) s)" by blast
  then show ?thesis by simp
qed

lemma index_ok_exec:
  assumes "index_ok s" and "exec R x s = Some s'"
  shows "index_ok s'"
proof (cases x)
  case (MoveBothMotors steps)
  with assms(2) have "currentSpeedIndex s' = currentSpeedIndex s"
    by (simp add: currentSpeedIndex_moveBothMotors)
  with assms(1) show ?thesis by simp
next
  case UpdateSpeed
  with assms show ?thesis by (auto simp: currentSpeedIndex_updateSpeed)
next
  case DrawStatus
  with assms show ?thesis by auto
next
  case DrawInstructions
  with assms show ?thesis by auto
qed

lemma index_ok_execs:
  "index_ok s \<Longrightarrow> execs R xs s = Some s' \<Longrightarrow> index_ok s'"
proof (induction xs arbitrary: s)
  case Nil
  then show ?case by simp
next
  case (Cons x xs)
  from Cons.prems(2) obtain t where t: "exec R x s = Some t" and r: "execs R xs t = Some s'"
    by (auto split: option.splits)
  from index_ok_exec[OF Cons.prems(1) t] have "index_ok t" .
  from Cons.IH[OF this r] show ?case .
qed

subsection \<open>More concrete states\<close>

lemma ready_100_fields:
  "two_channels ready_100" "index_ok ready_100" "currentSpeedIndex ready_100 = 5"
  "speedLevel ready_100 = 8000"
proof -
  show "two_channels ready_100"
    unfolding ready_100_def by (rule two_channels_funpow) (simp add: ready_fields)
  show c: "currentSpeedIndex ready_100 = 5"
    unfolding ready_100_def by (simp add: index_funpow ready_fields)
  then show "index_ok ready_100" by simp
  from c show "speedLevel ready_100 = 8000" by (rule speedLevel_at)
qed

lemma ready_AdjSpeed_fields:
  "two_channels ready_AdjSpeed" "index_ok_AdjSpeed ready_AdjSpeed"
  "currentSpeedIndex ready_AdjSpeed = 0" "pulseCounts ready_AdjSpeed = [0, 0]"
  "polls ready_AdjSpeed = 0" "speedLevel_AdjSpeed ready_AdjSpeed = 0"
  "steppers ready_AdjSpeed =
     [Some [SetDirectionPin 17, SetAutoEnable True, SetAcceleration 500, SetSpeedInHz 0],
      Some [SetDirectionPin 13, SetAutoEnable True, SetAcceleration 500, SetSpeedInHz 0]]"
  by (simp_all add: ready_AdjSpeed_def globals_def two_channels_def speedLevel_AdjSpeed_def
        speedLevels_AdjSpeed_def)

lemma polls_updateSpeed_AdjSpeed [simp]:
  "two_channels s \<Longrightarrow> polls (updateSpeed_AdjSpeed s) = polls s"
  by (simp add: updateSpeed_AdjSpeed_eq drawInstructions_AdjSpeed_def emit_def)

lemma steppers_updateSpeed_AdjSpeed:
  "two_channels s \<Longrightarrow>
     steppers (updateSpeed_AdjSpeed s) =
       map (map_option (\<lambda>obj. obj @ [SetSpeedInHz (speedLevel_AdjSpeed (updateSpeed_AdjSpeed s))]))
         (steppers s)"
  by (simp add: updateSpeed_AdjSpeed_eq sent_def speedLevel_AdjSpeed_def)

lemma speedLevel_AdjSpeed_at:
  "currentSpeedIndex s = 0 \<Longrightarrow> speedLevel_AdjSpeed s = 0"
  "currentSpeedIndex s = 1 \<Longrightarrow> speedLevel_AdjSpeed s = 100"
  "currentSpeedIndex s = 2 \<Longrightarrow> speedLevel_AdjSpeed s = 200"
  "currentSpeedIndex s = 3 \<Longrightarrow> speedLevel_AdjSpeed s = 300"
  "currentSpeedIndex s = 4 \<Longrightarrow> speedLevel_AdjSpeed s = 400"
  "currentSpeedIndex s = 5 \<Longrightarrow> speedLevel_AdjSpeed s = 500"
  by (simp_all add: speedLevel_AdjSpeed_def speedLevels_AdjSpeed_def)

lemma pressed_AdjSpeed:
  assumes "steppers s = [Some a, Some b]" and "two_channels s"
    and "currentSpeedIndex s = k" and "k + 1 < 6" and "polls s = 0"
  shows "steppers (updateSpeed_AdjSpeed s) =
           [Some (a @ [SetSpeedInHz (speedLevels_AdjSpeed ! nat (k + 1))]),
            Some (b @ [SetSpeedInHz (speedLevels_AdjSpeed ! nat (k + 1))])]"
    and "two_channels (updateSpeed_AdjSpeed s)"
    and "currentSpeedIndex (updateSpeed_AdjSpeed s) = k + 1"
    and "polls (updateSpeed_AdjSpeed s) = 0"
proof -
  note tc = assms(2)
  from assms(3,4) show c: "currentSpeedIndex (updateSpeed_AdjSpeed s) = k + 1"
    by (simp add: currentSpeedIndex_updateSpeed_AdjSpeed)
  then show "steppers (updateSpeed_AdjSpeed s) =
           [Some (a @ [SetSpeedInHz (speedLevels_AdjSpeed ! nat (k + 1))]),
            Some (b @ [SetSpeedInHz (speedLevels_AdjSpeed ! nat (k + 1))])]"
    by (simp add: steppers_updateSpeed_AdjSpeed[OF tc] speedLevel_AdjSpeed_def assms(1))
  show "two_channels (updateSpeed_AdjSpeed s)" using tc by simp
  show "polls (updateSpeed_AdjSpeed s) = 0" using tc assms(5) by simp
qed

lemma full_AdjSpeed_fields:
  "steppers full_AdjSpeed =
     [Some [SetDirectionPin 17, SetAutoEnable True, SetAcceleration 500, SetSpeedInHz 0,
            SetSpeedInHz 100, SetSpeedInHz 200, SetSpeedInHz 300, SetSpeedInHz 400,
            SetSpeedInHz 500],
      Some [SetDirectionPin 13, SetAutoEnable True, SetAcceleration 500, SetSpeedInHz 0,
            SetSpeedInHz 100, SetSpeedInHz 200, SetSpeedInHz 300, SetSpeedInHz 400,
            SetSpeedInHz 500]]"
  "two_channels full_AdjSpeed" "currentSpeedIndex full_AdjSpeed = 5" "polls full_AdjSpeed = 0"
  "pulseCounts full_AdjSpeed = [0, 0]"
  "index_ok_AdjSpeed full_AdjSpeed" "speedLevel_AdjSpeed full_AdjSpeed = 500"
proof -
  let ?s0 = ready_AdjSpeed
  let ?s1 = "updateSpeed_AdjSpeed ?s0"
  let ?s2 = "updateSpeed_AdjSpeed ?s1"
  let ?s3 = "updateSpeed_AdjSpeed ?s2"
  let ?s4 = "updateSpeed_AdjSpeed ?s3"
  let ?s5 = "updateSpeed_AdjSpeed ?s4"
  have e: "full_AdjSpeed = ?s5"
    by (simp add: full_AdjSpeed_def eval_nat_numeral)
  note r0 = ready_AdjSpeed_fields
  have r1: "steppers ?s1 =
     [Some [SetDirectionPin 17, SetAutoEnable True, SetAcceleration 500, SetSpeedInHz 0,
            SetSpeedInHz 100],
      Some [SetDirectionPin 13, SetAutoEnable True, SetAcceleration 500, SetSpeedInHz 0,
            SetSpeedInHz 100]]"
    "two_channels ?s1" "currentSpeedIndex ?s1 = 1" "polls ?s1 = 0"
    using pressed_AdjSpeed[OF r0(7) r0(1) r0(3) _ r0(5)]
    by (simp_all add: speedLevels_AdjSpeed_def)
  have r2: "steppers ?s2 =
     [Some [SetDirectionPin 17, SetAutoEnable True, SetAcceleration 500, SetSpeedInHz 0,
            SetSpeedInHz 100, SetSpeedInHz 200],
      Some [SetDirectionPin 13, SetAutoEnable True, SetAcceleration 500, SetSpeedInHz 0,
            SetSpeedInHz 100, SetSpeedInHz 200]]"
    "two_channels ?s2" "currentSpeedIndex ?s2 = 2" "polls ?s2 = 0"
    using pressed_AdjSpeed[OF r1(1) r1(2) r1(3) _ r1(4)]
    by (simp_all add: speedLevels_AdjSpeed_def)
  have r3: "steppers ?s3 =
     [Some [SetDirectionPin 17, SetAutoEnable True, SetAcceleration 500, SetSpeedInHz 0,
            SetSpeedInHz 100, SetSpeedInHz 200, SetSpeedInHz 300],
      Some [SetDirectionPin 13, SetAutoEnable True, SetAcceleration 500, SetSpeedInHz 0,
            SetSpeedInHz 100, SetSpeedInHz 200, SetSpeedInHz 300]]"
    "two_channels ?s3" "currentSpeedIndex ?s3 = 3" "polls ?s3 = 0"
    using pressed_AdjSpeed[OF r2(1) r2(2) r2(3) _ r2(4)]
    by (simp_all add: speedLevels_AdjSpeed_def)
  have r4: "steppers ?s4 =
     [Some [SetDirectionPin 17, SetAutoEnable True, SetAcceleration 500, SetSpeedInHz 0,
            SetSpeedInHz 100, SetSpeedInHz 200, SetSpeedInHz 300, SetSpeedInHz 400],
      Some [SetDirectionPin 13, SetAutoEnable True, SetAcceleration 500, SetSpeedInHz 0,
            SetSpeedInHz 100, SetSpeedInHz 200, SetSpeedInHz 300, SetSpeedInHz 400]]"
    "two_channels ?s4" "currentSpeedIndex ?s4 = 4" "polls ?s4 = 0"
    using pressed_AdjSpeed[OF r3(1) r3(2) r3(3) _ r3(4)]
    by (simp_all add: speedLevels_AdjSpeed_def)
  have r5: "steppers ?s5 =
     [Some [SetDirectionPin 17, SetAutoEnable True, SetAcceleration 500, SetSpeedInHz 0,
            SetSpeedInHz 100, SetSpeedInHz 200, SetSpeedInHz 300, SetSpeedInHz 400,
            SetSpeedInHz 500],
      Some [SetDirectionPin 13, SetAutoEnable True, SetAcceleration 500, SetSpeedInHz 0,
            SetSpeedInHz 100, SetSpeedInHz 200, SetSpeedInHz 300, SetSpeedInHz 400,
            SetSpeedInHz 500]]"
    "two_channels ?s5" "currentSpeedIndex ?s5 = 5" "polls ?s5 = 0"
    using pressed_AdjSpeed[OF r4(1) r4(2) r4(3) _ r4(4)]
    by (simp_all add: speedLevels_AdjSpeed_def)
  show "steppers full_AdjSpeed =
     [Some [SetDirectionPin 17, SetAutoEnable True, SetAcceleration 500, SetSpeedInHz 0,
            SetSpeedInHz 100, SetSpeedInHz 200, SetSpeedInHz 300, SetSpeedInHz 400,
            SetSpeedInHz 500],
      Some [SetDirectionPin 13, SetAutoEnable True, SetAcceleration 500, SetSpeedInHz 0,
            SetSpeedInHz 100, SetSpeedInHz 200, SetSpeedInHz 300, SetSpeedInHz 400,
            SetSpeedInHz 500]]"
    unfolding e by (rule r5(1))
  show "two_channels full_AdjSpeed" unfolding e by (rule r5(2))
  show c: "currentSpeedIndex full_AdjSpeed = 5" unfolding e by (rule r5(3))
  show "polls full_AdjSpeed = 0" unfolding e by (rule r5(4))
  show "pulseCounts full_AdjSpeed = [0, 0]" unfolding e by (simp add: r0)
  from c show "index_ok_AdjSpeed full_AdjSpeed" by simp
  from c show "speedLevel_AdjSpeed full_AdjSpeed = 500" by (rule speedLevel_AdjSpeed_at)
qed

lemma steppers_updateSpeed:
  assumes "two_channels s"
  shows "steppers (updateSpeed s) =
           map (map_option (\<lambda>obj. obj @
                  (if speedLevel (updateSpeed s) = 0 then [SetSpeedInHz 0, StopMove]
                   else [SetSpeedInHz (speedLevel (updateSpeed s))])))
             (steppers s)"
proof -
  have sl: "speedLevel (updateSpeed s) = speedLevel (advance speedLevelsCount s)"
    by (simp add: speedLevel_def currentSpeedIndex_updateSpeed currentSpeedIndex_advance)
  show ?thesis
    unfolding sl using assms by (simp add: updateSpeed_eq sent_def)
qed

lemma frame_updateSpeed [simp]:
  "two_channels s \<Longrightarrow> polls (updateSpeed s) = polls s"
  "two_channels s \<Longrightarrow> millis (updateSpeed s) = millis s"
  "two_channels s \<Longrightarrow> null_deref (updateSpeed s) = null_deref s"
  "two_channels s \<Longrightarrow> accelerationRate (updateSpeed s) = accelerationRate s"
  "two_channels s \<Longrightarrow> revolutionsPerMove (updateSpeed s) = revolutionsPerMove s"
  by (simp_all add: updateSpeed_eq)

lemma pressed:
  assumes "steppers s = [Some a, Some b]" and "two_channels s"
    and "currentSpeedIndex s = k" and "0 \<le> k" and "k + 1 < 6" and "polls s = 0"
  shows "steppers (updateSpeed s) =
           [Some (a @ [SetSpeedInHz (speedLevels ! nat (k + 1))]),
            Some (b @ [SetSpeedInHz (speedLevels ! nat (k + 1))])]"
    and "two_channels (updateSpeed s)"
    and "currentSpeedIndex (updateSpeed s) = k + 1"
    and "polls (updateSpeed s) = 0"
proof -
  note tc = assms(2)
  from assms(3,5) show c: "currentSpeedIndex (updateSpeed s) = k + 1"
    by (simp add: currentSpeedIndex_updateSpeed)
  from assms(4,5) have "k = 0 \<or> k = 1 \<or> k = 2 \<or> k = 3 \<or> k = 4" by arith
  then have nz: "speedLevels ! nat (k + 1) \<noteq> 0"
    by (auto simp: speedLevels_def)
  with c show "steppers (updateSpeed s) =
           [Some (a @ [SetSpeedInHz (speedLevels ! nat (k + 1))]),
            Some (b @ [SetSpeedInHz (speedLevels ! nat (k + 1))])]"
    by (simp add: steppers_updateSpeed[OF tc] speedLevel_def assms(1))
  show "two_channels (updateSpeed s)" using tc by simp
  show "polls (updateSpeed s) = 0" using tc assms(6) by simp
qed

lemma ready_100_more:
  "steppers ready_100 =
     [Some [SetDirectionPin 17, SetAutoEnable True, SetAcceleration 2000, SetSpeedInHz 0,
            SetSpeedInHz 1600, SetSpeedInHz 3200, SetSpeedInHz 4800, SetSpeedInHz 6400,
            SetSpeedInHz 8000],
      Some [SetDirectionPin 13, SetAutoEnable True, SetAcceleration 2000, SetSpeedInHz 0,
            SetSpeedInHz 1600, SetSpeedInHz 3200, SetSpeedInHz 4800, SetSpeedInHz 6400,
            SetSpeedInHz 8000]]"
  "polls ready_100 = 0"
proof -
  let ?s1 = "updateSpeed ready"
  let ?s2 = "updateSpeed ?s1"
  let ?s3 = "updateSpeed ?s2"
  let ?s4 = "updateSpeed ?s3"
  let ?s5 = "updateSpeed ?s4"
  have e: "ready_100 = ?s5"
    by (simp add: ready_100_def eval_nat_numeral)
  note r0 = ready_fields
  have r1: "steppers ?s1 =
     [Some [SetDirectionPin 17, SetAutoEnable True, SetAcceleration 2000, SetSpeedInHz 0,
            SetSpeedInHz 1600],
      Some [SetDirectionPin 13, SetAutoEnable True, SetAcceleration 2000, SetSpeedInHz 0,
            SetSpeedInHz 1600]]"
    "two_channels ?s1" "currentSpeedIndex ?s1 = 1" "polls ?s1 = 0"
    using pressed[OF r0(8) r0(1) r0(4) _ _ r0(5)]
    by (simp_all add: speedLevels_def)
  have r2: "steppers ?s2 =
     [Some [SetDirectionPin 17, SetAutoEnable True, SetAcceleration 2000, SetSpeedInHz 0,
            SetSpeedInHz 1600, SetSpeedInHz 3200],
      Some [SetDirectionPin 13, SetAutoEnable True, SetAcceleration 2000, SetSpeedInHz 0,
            SetSpeedInHz 1600, SetSpeedInHz 3200]]"
    "two_channels ?s2" "currentSpeedIndex ?s2 = 2" "polls ?s2 = 0"
    using pressed[OF r1(1) r1(2) r1(3) _ _ r1(4)]
    by (simp_all add: speedLevels_def)
  have r3: "steppers ?s3 =
     [Some [SetDirectionPin 17, SetAutoEnable True, SetAcceleration 2000, SetSpeedInHz 0,
            SetSpeedInHz 1600, SetSpeedInHz 3200, SetSpeedInHz 4800],
      Some [SetDirectionPin 13, SetAutoEnable True, SetAcceleration 2000, SetSpeedInHz 0,
            SetSpeedInHz 1600, SetSpeedInHz 3200, SetSpeedInHz 4800]]"
    "two_channels ?s3" "currentSpeedIndex ?s3 = 3" "polls ?s3 = 0"
    using pressed[OF r2(1) r2(2) r2(3) _ _ r2(4)]
    by (simp_all add: speedLevels_def)
  have r4: "steppers ?s4 =
     [Some [SetDirectionPin 17, SetAutoEnable True, SetAcceleration 2000, SetSpeedInHz 0,
            SetSpeedInHz 1600, SetSpeedInHz 3200, SetSpeedInHz 4800, SetSpeedInHz 6400],
      Some [SetDirectionPin 13, SetAutoEnable True, SetAcceleration 2000, SetSpeedInHz 0,
            SetSpeedInHz 1600, SetSpeedInHz 3200, SetSpeedInHz 4800, SetSpeedInHz 6400]]"
    "two_channels ?s4" "currentSpeedIndex ?s4 = 4" "polls ?s4 = 0"
    using pressed[OF r3(1) r3(2) r3(3) _ _ r3(4)]
    by (simp_all add: speedLevels_def)
  have r5: "steppers ?s5 =
     [Some [SetDirectionPin 17, SetAutoEnable True, SetAcceleration 2000, SetSpeedInHz 0,
            SetSpeedInHz 1600, SetSpeedInHz 3200, SetSpeedInHz 4800, SetSpeedInHz 6400,
            SetSpeedInHz 8000],
      Some [SetDirectionPin 13, SetAutoEnable True, SetAcceleration 2000, SetSpeedInHz 0,
            SetSpeedInHz 1600, SetSpeedInHz 3200, SetSpeedInHz 4800, SetSpeedInHz 6400,
            SetSpeedInHz 8000]]"
    "two_channels ?s5" "currentSpeedIndex ?s5 = 5" "polls ?s5 = 0"
    using pressed[OF r4(1) r4(2) r4(3) _ _ r4(4)]
    by (simp_all add: speedLevels_def)
  show "steppers ready_100 =
     [Some [SetDirectionPin 17, SetAutoEnable True, SetAcceleration 2000, SetSpeedInHz 0,
            SetSpeedInHz 1600, SetSpeedInHz 3200, SetSpeedInHz 4800, SetSpeedInHz 6400,
            SetSpeedInHz 8000],
      Some [SetDirectionPin 13, SetAutoEnable True, SetAcceleration 2000, SetSpeedInHz 0,
            SetSpeedInHz 1600, SetSpeedInHz 3200, SetSpeedInHz 4800, SetSpeedInHz 6400,
            SetSpeedInHz 8000]]"
    unfolding e by (rule r5(1))
  show "polls ready_100 = 0" unfolding e by (rule r5(4))
qed

subsection \<open>Frames of a move\<close>

lemma waited_fields [simp]:
  "accelerationRate (waited n s) = accelerationRate s"
  "revolutionsPerMove (waited n s) = revolutionsPerMove s"
  "null_deref (waited n s) = null_deref s"
  "polls (waited n s) = polls s + n + 1"
  "millis (waited n s) = millis s + 10 * n"
  by (simp_all add: waited_def)

text \<open>Every returning call of either \<open>moveBothMotors\<close>, in one shape: the steppers got
  the calls \<open>cs\<close>, the counters of the configured ones \<open>d\<close> more, and \<open>n\<close> busy rounds
  went by; \<open>n\<close> is \<open>None\<close> when the loop was not entered.\<close>

lemma moveBothMotors_shape:
  assumes "two_channels s" and "moveBothMotors R steps s = Some s'" and "i < 2"
  shows "currentSpeedIndex s' = currentSpeedIndex s"
    and "accelerationRate s' = accelerationRate s"
    and "revolutionsPerMove s' = revolutionsPerMove s"
    and "null_deref s' = null_deref s"
    and "two_channels s'"
    and "steppers s' ! i =
           map_option (\<lambda>obj. obj @ (if speedLevel s = 0 then [SetSpeedInHz 0, StopMove]
              else [SetAcceleration (accelerationRate s), SetSpeedInHz (speedLevel s), Move steps]))
             (steppers s ! i)"
    and "pulseCounts s' ! i =
           (if speedLevel s \<noteq> 0 \<and> steppers s ! i \<noteq> None then pulseCounts s ! i + steps
            else pulseCounts s ! i)"
proof -
  have "currentSpeedIndex s' = currentSpeedIndex s \<and> accelerationRate s' = accelerationRate s \<and>
        revolutionsPerMove s' = revolutionsPerMove s \<and> null_deref s' = null_deref s \<and>
        two_channels s' \<and>
        steppers s' ! i =
           map_option (\<lambda>obj. obj @ (if speedLevel s = 0 then [SetSpeedInHz 0, StopMove]
              else [SetAcceleration (accelerationRate s), SetSpeedInHz (speedLevel s), Move steps]))
             (steppers s ! i) \<and>
        pulseCounts s' ! i =
           (if speedLevel s \<noteq> 0 \<and> steppers s ! i \<noteq> None then pulseCounts s ! i + steps
            else pulseCounts s ! i)"
  proof (cases "speedLevel s = 0")
    case True
    with assms(1,2)
    have "s' = sent [SetSpeedInHz 0, StopMove]
                 (emit (SerialPrint ''Speed is 0, skipping move and stopping motors.'' []) s)"
      by (simp add: moveBothMotors_zero)
    with True assms(1,3) show ?thesis by (simp add: steppers_sent)
  next
    case False
    from moveBothMotors_result[OF assms(1) False assms(2)] obtain n where
      "s' = emit (SerialPrint ''Move complete.'' []) (waited n (issued steps s))" by blast
    with False assms(1,3) show ?thesis
      by (simp add: steppers_issued pulseCounts_issued)
  qed
  then show "currentSpeedIndex s' = currentSpeedIndex s"
    and "accelerationRate s' = accelerationRate s"
    and "revolutionsPerMove s' = revolutionsPerMove s"
    and "null_deref s' = null_deref s"
    and "two_channels s'"
    and "steppers s' ! i =
           map_option (\<lambda>obj. obj @ (if speedLevel s = 0 then [SetSpeedInHz 0, StopMove]
              else [SetAcceleration (accelerationRate s), SetSpeedInHz (speedLevel s), Move steps]))
             (steppers s ! i)"
    and "pulseCounts s' ! i =
           (if speedLevel s \<noteq> 0 \<and> steppers s ! i \<noteq> None then pulseCounts s ! i + steps
            else pulseCounts s ! i)"
    by simp_all
qed

lemma moveBothMotors_Basic_shape:
  assumes "two_channels s" and "moveBothMotors_Basic R steps s = Some s'" and "i < 2"
  shows "currentSpeedIndex s' = currentSpeedIndex s"
    and "null_deref s' = null_deref s"
    and "two_channels s'"
    and "steppers s' ! i = map_option (\<lambda>obj. obj @ [Move steps]) (steppers s ! i)"
    and "pulseCounts s' ! i =
           (if steppers s ! i \<noteq> None then pulseCounts s ! i + steps else pulseCounts s ! i)"
proof -
  from moveBothMotors_Basic_result[OF assms(1,2)] obtain n where
    s': "s' = waited n (issued_Basic steps s)" by blast
  with assms(1,3) show "currentSpeedIndex s' = currentSpeedIndex s"
    and "null_deref s' = null_deref s"
    and "two_channels s'"
    and "steppers s' ! i = map_option (\<lambda>obj. obj @ [Move steps]) (steppers s ! i)"
    and "pulseCounts s' ! i =
           (if steppers s ! i \<noteq> None then pulseCounts s ! i + steps else pulseCounts s ! i)"
    by (simp_all add: steppers_issued_Basic pulseCounts_issued_Basic)
qed

subsection \<open>The loop never asks a null channel\<close>

lemma wait_loop_cong:
  assumes "\<And>k. anyRunning R' (t\<lparr>polls := k\<rparr>) = anyRunning R (t\<lparr>polls := k\<rparr>)"
  shows "wait_loop R' t = wait_loop R t"
proof -
  have fi: "first_idle R' t n = first_idle R t n" for n
    unfolding first_idle_def assms ..
  show ?thesis
  proof (cases "wait_loop R t")
    case (Some u)
    from wait_loop_result[OF Some] obtain n where n: "first_idle R t n" "u = waited n t"
      by blast
    from n(1) have "first_idle R' t n" by (simp add: fi)
    from wait_loop_returns[OF this] Some n(2) show ?thesis by simp
  next
    case None
    show ?thesis
    proof (cases "wait_loop R' t")
      case (Some u)
      from wait_loop_result[OF Some] obtain n where "first_idle R' t n" by blast
      then have "first_idle R t n" by (simp add: fi)
      from wait_loop_returns[OF this] None show ?thesis by simp
    next
      case None': None
      with None show ?thesis by simp
    qed
  qed
qed

lemma anyRunning_override:
  assumes "i < 2" and "steppers t ! i = None"
  shows "anyRunning (override i R' R) (t\<lparr>polls := k\<rparr>) = anyRunning R (t\<lparr>polls := k\<rparr>)"
proof -
  from assms(1) have "i = 0 \<or> i = 1" by arith
  with assms(2) show ?thesis
    by (auto simp: anyRunning_def override_def)
qed

lemma moveBothMotors_override:
  assumes "two_channels s" and "i < 2" and "steppers s ! i = None"
  shows "moveBothMotors (override i R' R) steps s = moveBothMotors R steps s"
proof (cases "speedLevel s = 0")
  case True
  with assms(1) show ?thesis by (simp add: moveBothMotors_zero)
next
  case False
  from assms have "steppers (issued steps s) ! i = None" by (simp add: steppers_issued)
  from wait_loop_cong[OF anyRunning_override[OF assms(2) this]] False assms(1)
  show ?thesis by (simp add: moveBothMotors_nonzero)
qed

lemma moveBothMotors_Basic_override:
  assumes "two_channels s" and "i < 2" and "steppers s ! i = None"
  shows "moveBothMotors_Basic (override i R' R) steps s = moveBothMotors_Basic R steps s"
proof -
  from assms have "steppers (issued_Basic steps s) ! i = None"
    by (simp add: steppers_issued_Basic)
  from wait_loop_cong[OF anyRunning_override[OF assms(2) this]] assms(1)
  show ?thesis by (simp add: moveBothMotors_Basic_eq)
qed

subsection \<open>Returning only when idle\<close>

lemma first_idle_returned:
  assumes "first_idle R s n" and "polls s' = polls s + n + 1"
    and "millis s' = millis s + 10 * n"
  shows "returned_when_idle R s s'"
proof -
  have "anyRunning R (s\<lparr>polls := k\<rparr>)" if "polls s \<le> k" and "k < polls s + n" for k
  proof -
    from that have "k - polls s < n" and "k = polls s + (k - polls s)" by simp_all
    with assms(1) show ?thesis unfolding first_idle_def by metis
  qed
  moreover from assms(1) have "\<not> anyRunning R (s\<lparr>polls := polls s + n\<rparr>)"
    by (simp add: first_idle_def)
  ultimately show ?thesis
    using assms(2,3) by (simp add: returned_when_idle_def)
qed

subsection \<open>Equal counters\<close>

lemma balanced_exec:
  assumes "balanced s" and "exec R a s = Some s'"
  shows "balanced s'"
proof (cases a)
  case (MoveBothMotors steps)
  from assms(1) have tc: "two_channels s" by (simp add: balanced_def)
  from assms(2) MoveBothMotors have m: "moveBothMotors R steps s = Some s'" by simp
  have l: "(0::nat) < 2" "(1::nat) < 2" by simp_all
  from moveBothMotors_shape(5)[OF tc m l(1)]
    moveBothMotors_shape(6,7)[OF tc m l(1)] moveBothMotors_shape(6,7)[OF tc m l(2)] assms(1)
  show ?thesis by (auto simp: balanced_def)
next
  case UpdateSpeed
  with assms show ?thesis
    by (auto simp: balanced_def steppers_updateSpeed two_channels_def)
next
  case DrawStatus
  with assms show ?thesis by (auto simp: balanced_def)
next
  case DrawInstructions
  with assms show ?thesis by (auto simp: balanced_def)
qed

lemma balanced_execs:
  "balanced s \<Longrightarrow> execs R xs s = Some s' \<Longrightarrow> balanced s'"
proof (induction xs arbitrary: s)
  case Nil
  then show ?case by simp
next
  case (Cons x xs)
  from Cons.prems(2) obtain t where t: "exec R x s = Some t" and r: "execs R xs t = Some s'"
    by (auto split: option.splits)
  from Cons.IH[OF balanced_exec[OF Cons.prems(1) t] r] show ?case .
qed

lemma balanced_moveBothMotors_Basic:
  assumes "balanced s" and m: "moveBothMotors_Basic R steps s = Some s'"
  shows "balanced s'"
proof -
  from assms(1) have tc: "two_channels s" by (simp add: balanced_def)
  have l: "(0::nat) < 2" "(1::nat) < 2" by simp_all
  from moveBothMotors_Basic_shape(3)[OF tc m l(1)]
    moveBothMotors_Basic_shape(4,5)[OF tc m l(1)]
    moveBothMotors_Basic_shape(4,5)[OF tc m l(2)] assms(1)
  show ?thesis by (auto simp: balanced_def)
qed

lemma balanced_moves_Basic:
  "balanced s \<Longrightarrow> moves_Basic R xs s = Some s' \<Longrightarrow> balanced s'"
proof (induction xs arbitrary: s)
  case Nil
  then show ?case by simp
next
  case (Cons x xs)
  from Cons.prems(2) obtain t where t: "moveBothMotors_Basic R x s = Some t"
    and r: "moves_Basic R xs t = Some s'"
    by (auto split: option.splits)
  from Cons.IH[OF balanced_moveBothMotors_Basic[OF Cons.prems(1) t] r] show ?case .
qed

lemma balanced_ready: "balanced (setup_sketch True True globals)"
  by (simp add: balanced_def setup_sketch_fields)

lemma balanced_ready_AdjSpeed: "balanced ready_AdjSpeed"
  by (simp add: balanced_def ready_AdjSpeed_fields)

subsection \<open>An idle library lets every sequence of operations return\<close>

lemma exec_idle:
  assumes "two_channels s"
  shows "\<exists>s'. exec idle_library a s = Some s' \<and> two_channels s'"
proof (cases a)
  case (MoveBothMotors steps)
  show ?thesis
  proof (cases "speedLevel s = 0")
    case True
    with assms MoveBothMotors show ?thesis by (simp add: moveBothMotors_zero)
  next
    case False
    from moveBothMotors_returns[OF assms False first_idle_idle_library] assms MoveBothMotors
    show ?thesis by simp
  qed
next
  case UpdateSpeed
  with assms show ?thesis by simp
next
  case DrawStatus
  with assms show ?thesis by simp
next
  case DrawInstructions
  with assms show ?thesis by simp
qed

lemma execs_idle:
  "two_channels s \<Longrightarrow> \<exists>s'. execs idle_library xs s = Some s'"
proof (induction xs arbitrary: s)
  case Nil
  then show ?case by simp
next
  case (Cons x xs)
  from exec_idle[OF Cons.prems, of x] obtain t where
    t: "exec idle_library x s = Some t" and "two_channels t" by blast
  from Cons.IH[OF this(2)] t show ?case by simp
qed

lemma moves_Basic_idle:
  "two_channels s \<Longrightarrow> \<exists>s'. moves_Basic idle_library xs s = Some s'"
proof (induction xs arbitrary: s)
  case Nil
  then show ?case by simp
next
  case (Cons x xs)
  from moveBothMotors_Basic_returns[OF Cons.prems first_idle_idle_library, of x]
  have t: "moveBothMotors_Basic idle_library x s = Some (waited 0 (issued_Basic x s))" .
  from Cons.prems have "two_channels (waited 0 (issued_Basic x s))" by simp
  from Cons.IH[OF this] t show ?case by simp
qed

subsection \<open>The main loop runs operations\<close>

lemma loop_execs:
  assumes "two_channels s"
  shows "loop R btnA btnC btnB s = execs R (presses btnA btnC btnB s) (emit M5Update s)"
proof -
  let ?s0 = "emit M5Update s"
  have tc: "two_channels ?s0" using assms by simp
  have rpm: "revolutionsPerMove (drawStatus s1) = revolutionsPerMove s"
    if "moveBothMotors R steps ?s0 = Some s1" for steps s1
    using moveBothMotors_shape(3)[OF tc that, of 0] by simp
  show ?thesis
  proof (cases "btnA")
    case False
    then show ?thesis
      by (cases btnC; cases btnB)
         (auto simp: loop_def presses_def split: option.splits)
  next
    case True
    show ?thesis
    proof (cases "moveBothMotors R (word_of_int (STEPS_PER_REV * revolutionsPerMove s)) ?s0")
      case None
      with True show ?thesis by (simp add: loop_def presses_def)
    next
      case (Some s1)
      from rpm[OF Some] Some True show ?thesis
        by (cases btnC; cases btnB)
           (auto simp: loop_def presses_def split: option.splits)
    qed
  qed
qed

text \<open>So what every operation preserves, every pass of the loop preserves.\<close>

lemma index_ok_loop:
  assumes "two_channels s" and "index_ok s" and "loop R btnA btnC btnB s = Some s'"
  shows "index_ok s'"
proof -
  from assms(3) have "execs R (presses btnA btnC btnB s) (emit M5Update s) = Some s'"
    by (simp add: loop_execs[OF assms(1)])
  moreover from assms(2) have "index_ok (emit M5Update s)" by simp
  ultimately show ?thesis using index_ok_execs by blast
qed

lemma balanced_loop:
  assumes "balanced s" and "loop R btnA btnC btnB s = Some s'"
  shows "balanced s'"
proof -
  from assms(1) have tc: "two_channels s" by (simp add: balanced_def)
  from assms(2) have "execs R (presses btnA btnC btnB s) (emit M5Update s) = Some s'"
    by (simp add: loop_execs[OF tc])
  moreover from assms(1) have "balanced (emit M5Update s)" by (simp add: balanced_def)
  ultimately show ?thesis using balanced_execs by blast
qed

section \<open>The claims\<close>

subsection \<open>C1\<close>

text \<open>
  C1. For every configured channel, a call of \<open>moveBothMotors(steps)\<close> at a nonzero speed
  level that returns has changed that channel's \<open>pulseCounts\<close> entry by exactly
  \<open>steps\<close>. The counter is a 32-bit \<open>long\<close>: the change, taken in the counter's own
  arithmetic, is the signed value \<open>steps\<close> itself, magnitude and sign; and whenever the sum
  stays within the signed 32-bit range, the signed readings before and after differ by
  \<open>sint steps\<close>. The same holds for the \<open>moveBothMotors\<close> of the earlier sketches, which
  has no speed level to look at. Nothing depends on \<open>steps\<close> being nonzero.
\<close>

theorem moveBothMotors_adds_steps:
  assumes "two_channels s" and "i < 2" and "steppers s ! i \<noteq> None"
  shows "(index_ok s \<and> speedLevel s \<noteq> 0 \<and> moveBothMotors R steps s = Some s' \<longrightarrow>
            pulseCounts s' ! i - pulseCounts s ! i = steps \<and>
            (- (2 ^ 31) \<le> sint (pulseCounts s ! i) + sint steps \<and>
             sint (pulseCounts s ! i) + sint steps < 2 ^ 31 \<longrightarrow>
               sint (pulseCounts s' ! i) - sint (pulseCounts s ! i) = sint steps)) \<and>
         (moveBothMotors_Basic R steps s = Some s'' \<longrightarrow>
            pulseCounts s'' ! i - pulseCounts s ! i = steps \<and>
            (- (2 ^ 31) \<le> sint (pulseCounts s ! i) + sint steps \<and>
             sint (pulseCounts s ! i) + sint steps < 2 ^ 31 \<longrightarrow>
               sint (pulseCounts s'' ! i) - sint (pulseCounts s ! i) = sint steps))"
proof (intro conjI impI)
  assume "index_ok s \<and> speedLevel s \<noteq> 0 \<and> moveBothMotors R steps s = Some s'"
  then have nz: "speedLevel s \<noteq> 0" and m: "moveBothMotors R steps s = Some s'" by simp_all
  from moveBothMotors_result[OF assms(1) nz m] obtain n where
    "s' = emit (SerialPrint ''Move complete.'' []) (waited n (issued steps s))" by blast
  with assms have eq: "pulseCounts s' ! i = pulseCounts s ! i + steps"
    by (simp add: pulseCounts_issued)
  then show "pulseCounts s' ! i - pulseCounts s ! i = steps" by simp
  assume "- (2 ^ 31) \<le> sint (pulseCounts s ! i) + sint steps \<and>
          sint (pulseCounts s ! i) + sint steps < 2 ^ 31"
  then show "sint (pulseCounts s' ! i) - sint (pulseCounts s ! i) = sint steps"
    unfolding eq by (simp add: sint_add_in_range)
next
  assume m: "moveBothMotors_Basic R steps s = Some s''"
  from moveBothMotors_Basic_result[OF assms(1) m] obtain n where
    "s'' = waited n (issued_Basic steps s)" by blast
  with assms have eq: "pulseCounts s'' ! i = pulseCounts s ! i + steps"
    by (simp add: pulseCounts_issued_Basic)
  then show "pulseCounts s'' ! i - pulseCounts s ! i = steps" by simp
  assume "- (2 ^ 31) \<le> sint (pulseCounts s ! i) + sint steps \<and>
          sint (pulseCounts s ! i) + sint steps < 2 ^ 31"
  then show "sint (pulseCounts s'' ! i) - sint (pulseCounts s ! i) = sint steps"
    unfolding eq by (simp add: sint_add_in_range)
qed

text \<open>Both steppers connected, 20 percent speed, a library busy for two polls, one
  five-revolution move of 16000 microsteps.\<close>

theorem moveBothMotors_adds_steps_witness:
  "two_channels ready_20 \<and> (0::nat) < 2 \<and> steppers ready_20 ! 0 \<noteq> None \<and>
   index_ok ready_20 \<and> speedLevel ready_20 \<noteq> 0 \<and>
   moveBothMotors (busy_library 2) 16000 ready_20 \<noteq> None \<and>
   pulseCounts (the (moveBothMotors (busy_library 2) 16000 ready_20)) ! 0 = 16000 \<and>
   sint (pulseCounts (the (moveBothMotors (busy_library 2) 16000 ready_20)) ! 0) = 16000 \<and>
   moveBothMotors_Basic (busy_library 2) 16000 ready_20 \<noteq> None \<and>
   pulseCounts (the (moveBothMotors_Basic (busy_library 2) 16000 ready_20)) ! 0 = 16000 \<and>
   sint (pulseCounts (the (moveBothMotors_Basic (busy_library 2) 16000 ready_20)) ! 0) = 16000"
proof -
  have tc: "two_channels ready_20" and lt: "(0::nat) < 2"
    and st: "steppers ready_20 ! 0 \<noteq> None" and nz: "speedLevel ready_20 \<noteq> 0"
    and ok: "index_ok ready_20"
    by (simp_all add: ready_20_fields)
  have fi: "first_idle (busy_library 2) ready_20 2"
    by (rule first_idle_busy_library) (simp_all add: ready_20_fields)
  from moveBothMotors_returns[OF tc nz fi] obtain s1 where
    m1: "moveBothMotors (busy_library 2) 16000 ready_20 = Some s1" by blast
  from moveBothMotors_Basic_returns[OF tc fi] obtain s2 where
    m2: "moveBothMotors_Basic (busy_library 2) 16000 ready_20 = Some s2" by blast
  have s16: "sint (16000 :: int32) = 16000" by simp
  from moveBothMotors_adds_steps[OF tc lt st, of "busy_library 2" 16000 s1 s2]
  show ?thesis
    using tc st nz ok m1 m2 by (simp add: ready_20_fields)
qed

subsection \<open>C2\<close>

text \<open>
  C2, as stated, fails on v2.1: its \<open>moveBothMotors\<close> never looks at the speed level. At
  level 0, right after start-up, one press of button A sends \<open>move(3200)\<close> to both
  steppers, never \<open>stopMove\<close>, and adds 3200 to both counters.
\<close>

theorem moveBothMotors_zero_speed_counterexample:
  "speedLevel_AdjSpeed ready_AdjSpeed = 0 \<and> pulseCounts ready_AdjSpeed = [0, 0] \<and>
   map_option pulseCounts (moveBothMotors_Basic idle_library 3200 ready_AdjSpeed)
     = Some [3200, 3200] \<and>
   map_option steppers (moveBothMotors_Basic idle_library 3200 ready_AdjSpeed)
     = Some [Some [SetDirectionPin 17, SetAutoEnable True, SetAcceleration 500, SetSpeedInHz 0,
                   Move 3200],
             Some [SetDirectionPin 13, SetAutoEnable True, SetAcceleration 500, SetSpeedInHz 0,
                   Move 3200]]"
proof -
  have "moveBothMotors_Basic idle_library 3200 ready_AdjSpeed
          = Some (waited 0 (issued_Basic 3200 ready_AdjSpeed))"
    by (rule moveBothMotors_Basic_returns)
       (simp_all add: ready_AdjSpeed_fields first_idle_idle_library)
  then show ?thesis
    by (simp add: issued_Basic_def counted_def sent_def ready_AdjSpeed_fields)
qed

text \<open>
  C2, amended. In v2.7, at speed level 0 and for every step count, \<open>moveBothMotors\<close>
  returns without waiting; every configured stepper has received \<open>setSpeedInHz(0)\<close> and
  \<open>stopMove()\<close> and nothing else, a null pointer stays null, and \<open>pulseCounts\<close> is as
  before.
\<close>

theorem moveBothMotors_zero_speed_stops:
  assumes "two_channels s" and "index_ok s" and "speedLevel s = 0" and "i < 2"
  shows "\<exists>s'. moveBothMotors R steps s = Some s' \<and> pulseCounts s' = pulseCounts s \<and>
           polls s' = polls s \<and>
           steppers s' ! i = map_option (\<lambda>obj. obj @ [SetSpeedInHz 0, StopMove]) (steppers s ! i)"
  using assms by (simp add: moveBothMotors_zero steppers_sent)

text \<open>Right after start-up of v2.7, whatever the library would answer.\<close>

theorem moveBothMotors_zero_speed_stops_witness:
  "two_channels ready \<and> index_ok ready \<and> speedLevel ready = 0 \<and> (1::nat) < 2 \<and>
   moveBothMotors (busy_library 5) 16000 ready \<noteq> None \<and>
   pulseCounts (the (moveBothMotors (busy_library 5) 16000 ready)) = [0, 0] \<and>
   polls (the (moveBothMotors (busy_library 5) 16000 ready)) = 0 \<and>
   steppers (the (moveBothMotors (busy_library 5) 16000 ready)) ! 1 =
     Some [SetDirectionPin 13, SetAutoEnable True, SetAcceleration 2000, SetSpeedInHz 0,
           SetSpeedInHz 0, StopMove]"
proof -
  have h: "two_channels ready" "index_ok ready" "speedLevel ready = 0" "(1::nat) < 2"
    by (simp_all add: ready_fields speedLevel_at)
  from moveBothMotors_zero_speed_stops[OF h, of "busy_library 5" 16000]
  show ?thesis using h by (auto simp: ready_fields)
qed

subsection \<open>C4\<close>

text \<open>
  C4. From every index the table has, \<open>speedLevelsCount\<close> calls of \<open>updateSpeed\<close> bring
  \<open>currentSpeedIndex\<close> back to where it started; in v2.7 and in v2.1.
\<close>

theorem updateSpeed_cycle:
  "(index_ok s \<longrightarrow>
      currentSpeedIndex ((updateSpeed ^^ nat speedLevelsCount) s) = currentSpeedIndex s) \<and>
   (index_ok_AdjSpeed s \<longrightarrow>
      currentSpeedIndex ((updateSpeed_AdjSpeed ^^ nat speedLevelsCount_AdjSpeed) s)
        = currentSpeedIndex s)"
proof (intro conjI impI)
  assume "index_ok s"
  then have r: "0 \<le> currentSpeedIndex s" "currentSpeedIndex s < 6" by simp_all
  have "currentSpeedIndex ((updateSpeed ^^ 6) s) = (currentSpeedIndex s + int 6) mod 6"
    by (rule index_funpow[OF r])
  with r show "currentSpeedIndex ((updateSpeed ^^ nat speedLevelsCount) s) = currentSpeedIndex s"
    by simp
next
  assume "index_ok_AdjSpeed s"
  then have r: "0 \<le> currentSpeedIndex s" "currentSpeedIndex s < 6" by simp_all
  have "currentSpeedIndex ((updateSpeed_AdjSpeed ^^ 6) s) = (currentSpeedIndex s + int 6) mod 6"
    by (rule index_funpow_AdjSpeed[OF r])
  with r show "currentSpeedIndex ((updateSpeed_AdjSpeed ^^ nat speedLevelsCount_AdjSpeed) s)
      = currentSpeedIndex s"
    by simp
qed

text \<open>From index 1 of v2.7 and from index 0 of v2.1.\<close>

theorem updateSpeed_cycle_witness:
  "index_ok ready_20 \<and>
   currentSpeedIndex ((updateSpeed ^^ nat speedLevelsCount) ready_20) = 1 \<and>
   index_ok_AdjSpeed ready_AdjSpeed \<and>
   currentSpeedIndex ((updateSpeed_AdjSpeed ^^ nat speedLevelsCount_AdjSpeed) ready_AdjSpeed) = 0"
  using updateSpeed_cycle[of ready_20] updateSpeed_cycle[of ready_AdjSpeed]
  by (simp add: ready_20_fields ready_AdjSpeed_fields)

subsection \<open>C5\<close>

text \<open>
  C5. \<open>currentSpeedIndex\<close> is an index of the table after start-up and stays one under
  every operation, hence after every sequence of operations; \<open>updateSpeed\<close> at the last
  index sets it to 0. In v2.7, and in v2.1 for its two operations.
\<close>

theorem currentSpeedIndex_in_range:
  "index_ok (setup_sketch x y globals) \<and>
   (index_ok s \<and> exec R a s = Some s' \<longrightarrow> index_ok s') \<and>
   (execs R ops (setup_sketch x y globals) = Some t \<longrightarrow> index_ok t) \<and>
   (currentSpeedIndex s = speedLevelsCount - 1 \<longrightarrow> currentSpeedIndex (updateSpeed s) = 0) \<and>
   (index_ok_AdjSpeed s \<longrightarrow> index_ok_AdjSpeed (updateSpeed_AdjSpeed s)) \<and>
   (index_ok_AdjSpeed s \<and> moveBothMotors_Basic R steps s = Some s'' \<longrightarrow>
      index_ok_AdjSpeed s'') \<and>
   (currentSpeedIndex s = speedLevelsCount_AdjSpeed - 1 \<longrightarrow>
      currentSpeedIndex (updateSpeed_AdjSpeed s) = 0)"
proof (intro conjI impI)
  show "index_ok (setup_sketch x y globals)" by (rule index_ok_setup_sketch)
  show "index_ok s'" if "index_ok s \<and> exec R a s = Some s'"
    using that index_ok_exec by blast
  show "index_ok t" if "execs R ops (setup_sketch x y globals) = Some t"
    using index_ok_execs[OF index_ok_setup_sketch that] .
  show "currentSpeedIndex (updateSpeed s) = 0" if "currentSpeedIndex s = speedLevelsCount - 1"
    using that by (simp add: currentSpeedIndex_updateSpeed)
  show "index_ok_AdjSpeed (updateSpeed_AdjSpeed s)" if "index_ok_AdjSpeed s"
    using that by (simp add: currentSpeedIndex_updateSpeed_AdjSpeed)
  show "index_ok_AdjSpeed s''"
    if "index_ok_AdjSpeed s \<and> moveBothMotors_Basic R steps s = Some s''"
    using that by (auto simp: currentSpeedIndex_moveBothMotors_Basic)
  show "currentSpeedIndex (updateSpeed_AdjSpeed s) = 0"
    if "currentSpeedIndex s = speedLevelsCount_AdjSpeed - 1"
    using that by (simp add: currentSpeedIndex_updateSpeed_AdjSpeed)
qed

text \<open>At the last index of either sketch, one more press of button B; and from start-up,
  one press of B followed by a move.\<close>

theorem currentSpeedIndex_in_range_witness:
  "index_ok (setup_sketch True True globals) \<and>
   index_ok ready_100 \<and> exec (busy_library 2) UpdateSpeed ready_100 = Some (updateSpeed ready_100) \<and>
   index_ok (updateSpeed ready_100) \<and>
   execs (busy_library 2) [UpdateSpeed, MoveBothMotors 16000] (setup_sketch True True globals)
     \<noteq> None \<and>
   index_ok (the (execs (busy_library 2) [UpdateSpeed, MoveBothMotors 16000]
                    (setup_sketch True True globals))) \<and>
   currentSpeedIndex ready_100 = speedLevelsCount - 1 \<and>
   currentSpeedIndex (updateSpeed ready_100) = 0 \<and>
   index_ok_AdjSpeed full_AdjSpeed \<and> index_ok_AdjSpeed (updateSpeed_AdjSpeed full_AdjSpeed) \<and>
   moveBothMotors_Basic (busy_library 2) 3200 full_AdjSpeed \<noteq> None \<and>
   index_ok_AdjSpeed (the (moveBothMotors_Basic (busy_library 2) 3200 full_AdjSpeed)) \<and>
   currentSpeedIndex full_AdjSpeed = speedLevelsCount_AdjSpeed - 1 \<and>
   currentSpeedIndex (updateSpeed_AdjSpeed full_AdjSpeed) = 0"
proof -
  have fi: "first_idle (busy_library 2) ready_20 2"
    by (rule first_idle_busy_library) (simp_all add: ready_20_fields)
  from moveBothMotors_returns[OF ready_20_fields(1) _ fi, of 16000] obtain t where
    "moveBothMotors (busy_library 2) 16000 ready_20 = Some t"
    by (auto simp: ready_20_fields)
  then have ex: "execs (busy_library 2) [UpdateSpeed, MoveBothMotors 16000]
                   (setup_sketch True True globals) = Some t"
    by (simp add: ready_20_def ready_def)
  have fi': "first_idle (busy_library 2) full_AdjSpeed 2"
    by (rule first_idle_busy_library) (simp_all add: full_AdjSpeed_fields)
  from moveBothMotors_Basic_returns[OF full_AdjSpeed_fields(2) fi', of 3200] obtain u where
    mv: "moveBothMotors_Basic (busy_library 2) 3200 full_AdjSpeed = Some u" by blast
  from currentSpeedIndex_in_range
         [where x = True and y = True and s = ready_100 and R = "busy_library 2"
            and a = UpdateSpeed and s' = "updateSpeed ready_100"
            and ops = "[UpdateSpeed, MoveBothMotors 16000]" and t = t]
       currentSpeedIndex_in_range
         [where s = full_AdjSpeed and R = "busy_library 2" and steps = 3200 and s'' = u]
  show ?thesis
    using ex mv
    by (simp add: ready_100_fields full_AdjSpeed_fields)
qed

subsection \<open>C6\<close>

text \<open>
  C6, as stated, fails on v2.1: its \<open>updateSpeed\<close> has no stop. Stepping from the last
  index to index 0, where the speed level is 0, it sends \<open>setSpeedInHz(0)\<close> and no
  \<open>stopMove()\<close>.
\<close>

theorem updateSpeed_stop_counterexample:
  "currentSpeedIndex full_AdjSpeed = 5 \<and>
   currentSpeedIndex (updateSpeed_AdjSpeed full_AdjSpeed) = 0 \<and>
   speedLevel_AdjSpeed (updateSpeed_AdjSpeed full_AdjSpeed) = 0 \<and>
   steppers (updateSpeed_AdjSpeed full_AdjSpeed) =
     [Some [SetDirectionPin 17, SetAutoEnable True, SetAcceleration 500, SetSpeedInHz 0,
            SetSpeedInHz 100, SetSpeedInHz 200, SetSpeedInHz 300, SetSpeedInHz 400,
            SetSpeedInHz 500, SetSpeedInHz 0],
      Some [SetDirectionPin 13, SetAutoEnable True, SetAcceleration 500, SetSpeedInHz 0,
            SetSpeedInHz 100, SetSpeedInHz 200, SetSpeedInHz 300, SetSpeedInHz 400,
            SetSpeedInHz 500, SetSpeedInHz 0]] \<and>
   StopMove \<notin> set (the (steppers (updateSpeed_AdjSpeed full_AdjSpeed) ! 0)) \<and>
   StopMove \<notin> set (the (steppers (updateSpeed_AdjSpeed full_AdjSpeed) ! 1))"
proof -
  have c: "currentSpeedIndex (updateSpeed_AdjSpeed full_AdjSpeed) = 0"
    by (simp add: currentSpeedIndex_updateSpeed_AdjSpeed full_AdjSpeed_fields)
  note v = speedLevel_AdjSpeed_at(1)[OF c]
  show ?thesis
    by (simp add: c v full_AdjSpeed_fields
          steppers_updateSpeed_AdjSpeed[OF full_AdjSpeed_fields(2)])
qed

text \<open>
  C6, amended. In v2.7, \<open>updateSpeed\<close> sends every configured stepper
  \<open>setSpeedInHz(0)\<close> and \<open>stopMove()\<close> when the entry it advances to has speed level 0,
  and only \<open>setSpeedInHz\<close> with the new level otherwise: no stop and no move. A null
  pointer stays null.
\<close>

theorem updateSpeed_stops_at_zero:
  assumes "two_channels s" and "index_ok s" and "i < 2"
  shows "steppers (updateSpeed s) ! i =
           map_option (\<lambda>obj. obj @
               (if speedLevel (updateSpeed s) = 0 then [SetSpeedInHz 0, StopMove]
                else [SetSpeedInHz (speedLevel (updateSpeed s))]))
             (steppers s ! i)"
  using assms by (simp add: steppers_updateSpeed two_channels_def)

text \<open>From the last index to level 0, and from index 0 to 1600 Hz.\<close>

theorem updateSpeed_stops_at_zero_witness:
  "two_channels ready_100 \<and> index_ok ready_100 \<and> (0::nat) < 2 \<and>
   speedLevel (updateSpeed ready_100) = 0 \<and>
   steppers (updateSpeed ready_100) ! 0 =
     Some [SetDirectionPin 17, SetAutoEnable True, SetAcceleration 2000, SetSpeedInHz 0,
           SetSpeedInHz 1600, SetSpeedInHz 3200, SetSpeedInHz 4800, SetSpeedInHz 6400,
           SetSpeedInHz 8000, SetSpeedInHz 0, StopMove] \<and>
   two_channels ready \<and> index_ok ready \<and>
   speedLevel (updateSpeed ready) = 1600 \<and>
   steppers (updateSpeed ready) ! 0 =
     Some [SetDirectionPin 17, SetAutoEnable True, SetAcceleration 2000, SetSpeedInHz 0,
           SetSpeedInHz 1600]"
proof -
  have h: "two_channels ready_100" "index_ok ready_100" "(0::nat) < 2"
    and h': "two_channels ready" "index_ok ready"
    by (simp_all add: ready_100_fields ready_fields)
  have "currentSpeedIndex (updateSpeed ready_100) = 0"
    by (simp add: currentSpeedIndex_updateSpeed ready_100_fields)
  then have z: "speedLevel (updateSpeed ready_100) = 0" by (rule speedLevel_at)
  have "currentSpeedIndex (updateSpeed ready) = 1"
    by (simp add: currentSpeedIndex_updateSpeed ready_fields)
  then have v: "speedLevel (updateSpeed ready) = 1600" by (rule speedLevel_at)
  from updateSpeed_stops_at_zero[OF h] updateSpeed_stops_at_zero[OF h' h(3)]
  show ?thesis
    using h h' by (simp add: z v ready_100_more ready_fields)
qed

subsection \<open>C7\<close>

text \<open>
  C7. A channel whose stepper pointer is null is skipped by every operation:
  \<open>moveBothMotors\<close> and \<open>updateSpeed\<close> leave the pointer null (there is no object to
  receive a move, a stop or a setting), leave its \<open>pulseCounts\<close> entry alone and
  dereference no null pointer; and the completion loop never asks the library about
  that channel, since replacing the library's answers for it by any others changes
  nothing. The same for the \<open>moveBothMotors\<close> of the earlier sketches.
\<close>

theorem null_channel_is_skipped:
  assumes "two_channels s" and "index_ok s" and "i < 2" and "steppers s ! i = None"
  shows "(moveBothMotors R steps s = Some s' \<longrightarrow>
            steppers s' ! i = None \<and> pulseCounts s' ! i = pulseCounts s ! i \<and>
            null_deref s' = null_deref s) \<and>
         moveBothMotors (override i R' R) steps s = moveBothMotors R steps s \<and>
         steppers (updateSpeed s) ! i = None \<and>
         pulseCounts (updateSpeed s) ! i = pulseCounts s ! i \<and>
         null_deref (updateSpeed s) = null_deref s \<and>
         (moveBothMotors_Basic R steps s = Some s'' \<longrightarrow>
            steppers s'' ! i = None \<and> pulseCounts s'' ! i = pulseCounts s ! i \<and>
            null_deref s'' = null_deref s) \<and>
         moveBothMotors_Basic (override i R' R) steps s = moveBothMotors_Basic R steps s"
proof (intro conjI impI)
  note tc = assms(1) and i = assms(3) and null = assms(4)
  show "moveBothMotors (override i R' R) steps s = moveBothMotors R steps s"
    by (rule moveBothMotors_override[OF tc i null])
  show "moveBothMotors_Basic (override i R' R) steps s = moveBothMotors_Basic R steps s"
    by (rule moveBothMotors_Basic_override[OF tc i null])
  from tc i null show "steppers (updateSpeed s) ! i = None"
    by (simp add: steppers_updateSpeed two_channels_def)
  show "pulseCounts (updateSpeed s) ! i = pulseCounts s ! i" by simp
  from tc show "null_deref (updateSpeed s) = null_deref s" by simp
  {
    assume m: "moveBothMotors R steps s = Some s'"
    from moveBothMotors_shape(6)[OF tc m i] null show "steppers s' ! i = None" by simp
    from moveBothMotors_shape(7)[OF tc m i] null show "pulseCounts s' ! i = pulseCounts s ! i"
      by simp
    from moveBothMotors_shape(4)[OF tc m i] show "null_deref s' = null_deref s" .
  }
  {
    assume m: "moveBothMotors_Basic R steps s = Some s''"
    from moveBothMotors_Basic_shape(4)[OF tc m i] null show "steppers s'' ! i = None" by simp
    from moveBothMotors_Basic_shape(5)[OF tc m i] null
    show "pulseCounts s'' ! i = pulseCounts s ! i" by simp
    from moveBothMotors_Basic_shape(2)[OF tc m i] show "null_deref s'' = null_deref s" .
  }
qed

text \<open>Only X connected, 20 percent speed; for channel Y the library is made to answer
  "running" for nine polls, which nobody hears.\<close>

theorem null_channel_is_skipped_witness:
  "two_channels ready_X_20 \<and> index_ok ready_X_20 \<and> (1::nat) < 2 \<and>
   steppers ready_X_20 ! 1 = None \<and>
   moveBothMotors (busy_library 2) 16000 ready_X_20 \<noteq> None \<and>
   steppers (the (moveBothMotors (busy_library 2) 16000 ready_X_20)) ! 1 = None \<and>
   pulseCounts (the (moveBothMotors (busy_library 2) 16000 ready_X_20)) ! 1 = 0 \<and>
   null_deref (the (moveBothMotors (busy_library 2) 16000 ready_X_20)) = False \<and>
   moveBothMotors (override 1 (busy_library 9) (busy_library 2)) 16000 ready_X_20
     = moveBothMotors (busy_library 2) 16000 ready_X_20 \<and>
   steppers (updateSpeed ready_X_20) ! 1 = None \<and>
   moveBothMotors_Basic (busy_library 2) 16000 ready_X_20 \<noteq> None \<and>
   steppers (the (moveBothMotors_Basic (busy_library 2) 16000 ready_X_20)) ! 1 = None \<and>
   pulseCounts (the (moveBothMotors_Basic (busy_library 2) 16000 ready_X_20)) ! 1 = 0"
proof -
  have h: "two_channels ready_X_20" "index_ok ready_X_20" "(1::nat) < 2"
    "steppers ready_X_20 ! 1 = None"
    by (simp_all add: ready_X_20_fields)
  have nz: "speedLevel ready_X_20 \<noteq> 0" by (simp add: ready_X_20_fields)
  have fi: "first_idle (busy_library 2) ready_X_20 2"
    by (rule first_idle_busy_library) (simp_all add: ready_X_20_fields)
  from moveBothMotors_returns[OF h(1) nz fi] obtain s1 where
    m1: "moveBothMotors (busy_library 2) 16000 ready_X_20 = Some s1" by blast
  from moveBothMotors_Basic_returns[OF h(1) fi] obtain s2 where
    m2: "moveBothMotors_Basic (busy_library 2) 16000 ready_X_20 = Some s2" by blast
  from null_channel_is_skipped
         [OF h, where R = "busy_library 2" and steps = 16000 and s' = s1 and s'' = s2
            and R' = "busy_library 9"]
  show ?thesis using h m1 m2 by (simp add: ready_X_20_fields)
qed

subsection \<open>C8\<close>

text \<open>
  C8. Of the sketch's globals, \<open>moveBothMotors\<close> changes only \<open>pulseCounts\<close>, and each
  entry either stays or grows by the step count of the move; \<open>updateSpeed\<close> changes only
  \<open>currentSpeedIndex\<close>; \<open>drawStatus\<close> and \<open>drawInstructions\<close> change none. The other
  globals are \<open>accelerationRate\<close>, \<open>revolutionsPerMove\<close> and the two pointers (which of
  them are null).
\<close>

theorem only_counters_and_index_change:
  assumes "two_channels s" and "i < 2"
  shows "(moveBothMotors R steps s = Some s' \<longrightarrow>
            currentSpeedIndex s' = currentSpeedIndex s \<and>
            accelerationRate s' = accelerationRate s \<and>
            revolutionsPerMove s' = revolutionsPerMove s \<and>
            (steppers s' ! i = None \<longleftrightarrow> steppers s ! i = None) \<and>
            (pulseCounts s' ! i = pulseCounts s ! i \<or>
             pulseCounts s' ! i = pulseCounts s ! i + steps)) \<and>
         (pulseCounts (updateSpeed s) = pulseCounts s \<and>
          accelerationRate (updateSpeed s) = accelerationRate s \<and>
          revolutionsPerMove (updateSpeed s) = revolutionsPerMove s \<and>
          (steppers (updateSpeed s) ! i = None \<longleftrightarrow> steppers s ! i = None)) \<and>
         (pulseCounts (drawStatus s) = pulseCounts s \<and>
          currentSpeedIndex (drawStatus s) = currentSpeedIndex s \<and>
          accelerationRate (drawStatus s) = accelerationRate s \<and>
          revolutionsPerMove (drawStatus s) = revolutionsPerMove s \<and>
          steppers (drawStatus s) = steppers s) \<and>
         (pulseCounts (drawInstructions s) = pulseCounts s \<and>
          currentSpeedIndex (drawInstructions s) = currentSpeedIndex s \<and>
          accelerationRate (drawInstructions s) = accelerationRate s \<and>
          revolutionsPerMove (drawInstructions s) = revolutionsPerMove s \<and>
          steppers (drawInstructions s) = steppers s)"
proof (intro conjI impI)
  note tc = assms(1) and i = assms(2)
  {
    assume m: "moveBothMotors R steps s = Some s'"
    note sh = moveBothMotors_shape[OF tc m i]
    show "currentSpeedIndex s' = currentSpeedIndex s" by (rule sh(1))
    show "accelerationRate s' = accelerationRate s" by (rule sh(2))
    show "revolutionsPerMove s' = revolutionsPerMove s" by (rule sh(3))
    show "steppers s' ! i = None \<longleftrightarrow> steppers s ! i = None" unfolding sh(6) by simp
    show "pulseCounts s' ! i = pulseCounts s ! i \<or>
          pulseCounts s' ! i = pulseCounts s ! i + steps"
      unfolding sh(7) by simp
  }
  from tc i show "steppers (updateSpeed s) ! i = None \<longleftrightarrow> steppers s ! i = None"
    by (simp add: steppers_updateSpeed two_channels_def)
qed (simp_all add: assms(1))

text \<open>One move with only X connected: the index stays 1, X counts 16000, Y stays 0.\<close>

theorem only_counters_and_index_change_witness:
  "two_channels ready_X_20 \<and> (0::nat) < 2 \<and> (1::nat) < 2 \<and>
   moveBothMotors (busy_library 2) 16000 ready_X_20 \<noteq> None \<and>
   currentSpeedIndex (the (moveBothMotors (busy_library 2) 16000 ready_X_20)) = 1 \<and>
   accelerationRate (the (moveBothMotors (busy_library 2) 16000 ready_X_20)) = 2000 \<and>
   revolutionsPerMove (the (moveBothMotors (busy_library 2) 16000 ready_X_20)) = 5 \<and>
   steppers (the (moveBothMotors (busy_library 2) 16000 ready_X_20)) ! 0 \<noteq> None \<and>
   steppers (the (moveBothMotors (busy_library 2) 16000 ready_X_20)) ! 1 = None \<and>
   pulseCounts (updateSpeed ready_X_20) = [0, 0]"
proof -
  have tc: "two_channels ready_X_20" and l: "(0::nat) < 2" "(1::nat) < 2"
    by (simp_all add: ready_X_20_fields)
  have nz: "speedLevel ready_X_20 \<noteq> 0" by (simp add: ready_X_20_fields)
  have fi: "first_idle (busy_library 2) ready_X_20 2"
    by (rule first_idle_busy_library) (simp_all add: ready_X_20_fields)
  from moveBothMotors_returns[OF tc nz fi] obtain s1 where
    m1: "moveBothMotors (busy_library 2) 16000 ready_X_20 = Some s1" by blast
  have g: "accelerationRate ready_X_20 = 2000" "revolutionsPerMove ready_X_20 = 5"
    by (simp_all add: ready_X_20_def ready_X_fields ready_X_def setup_sketch_fields)
  from only_counters_and_index_change
         [OF tc l(1), where R = "busy_library 2" and steps = 16000 and s' = s1]
       only_counters_and_index_change
         [OF tc l(2), where R = "busy_library 2" and steps = 16000 and s' = s1]
  show ?thesis using tc m1 g by (simp add: ready_X_20_fields)
qed

subsection \<open>C9\<close>

text \<open>
  C9. A \<open>moveBothMotors\<close> at nonzero speed that returns has polled at least once; in its
  last round no configured stepper reported running, in every round before one did, and
  each such round was followed by \<open>delay(10)\<close>. The same for the earlier sketches, at
  any speed.
\<close>

theorem moveBothMotors_returns_only_when_idle:
  assumes "two_channels s"
  shows "(index_ok s \<and> speedLevel s \<noteq> 0 \<and> moveBothMotors R steps s = Some s' \<longrightarrow>
            returned_when_idle R s s') \<and>
         (moveBothMotors_Basic R steps s = Some s'' \<longrightarrow> returned_when_idle R s s'')"
proof (intro conjI impI)
  assume "index_ok s \<and> speedLevel s \<noteq> 0 \<and> moveBothMotors R steps s = Some s'"
  then have nz: "speedLevel s \<noteq> 0" and m: "moveBothMotors R steps s = Some s'" by simp_all
  from moveBothMotors_result[OF assms nz m] obtain n where
    n: "first_idle R s n"
    and s': "s' = emit (SerialPrint ''Move complete.'' []) (waited n (issued steps s))"
    by blast
  from s' have "polls s' = polls s + n + 1" "millis s' = millis s + 10 * n" by simp_all
  with n show "returned_when_idle R s s'" by (rule first_idle_returned)
next
  assume m: "moveBothMotors_Basic R steps s = Some s''"
  from moveBothMotors_Basic_result[OF assms m] obtain n where
    n: "first_idle R s n" and s'': "s'' = waited n (issued_Basic steps s)" by blast
  from s'' have "polls s'' = polls s + n + 1" "millis s'' = millis s + 10 * n" by simp_all
  with n show "returned_when_idle R s s''" by (rule first_idle_returned)
qed

text \<open>Both steppers busy for two polls: the call returns in the third round, after two
  delays of 10 ms.\<close>

theorem moveBothMotors_returns_only_when_idle_witness:
  "two_channels ready_20 \<and> index_ok ready_20 \<and> speedLevel ready_20 \<noteq> 0 \<and>
   moveBothMotors (busy_library 2) 16000 ready_20 \<noteq> None \<and>
   returned_when_idle (busy_library 2) ready_20
     (the (moveBothMotors (busy_library 2) 16000 ready_20)) \<and>
   polls (the (moveBothMotors (busy_library 2) 16000 ready_20)) = 3 \<and>
   millis (the (moveBothMotors (busy_library 2) 16000 ready_20)) = 20 \<and>
   moveBothMotors_Basic (busy_library 2) 16000 ready_20 \<noteq> None \<and>
   returned_when_idle (busy_library 2) ready_20
     (the (moveBothMotors_Basic (busy_library 2) 16000 ready_20))"
proof -
  have tc: "two_channels ready_20" and ok: "index_ok ready_20"
    and nz: "speedLevel ready_20 \<noteq> 0"
    by (simp_all add: ready_20_fields)
  have fi: "first_idle (busy_library 2) ready_20 2"
    by (rule first_idle_busy_library) (simp_all add: ready_20_fields)
  note m1 = moveBothMotors_returns[OF tc nz fi, of 16000]
  note m2 = moveBothMotors_Basic_returns[OF tc fi, of 16000]
  from moveBothMotors_returns_only_when_idle
         [OF tc, where R = "busy_library 2" and steps = 16000
            and s' = "emit (SerialPrint ''Move complete.'' []) (waited 2 (issued 16000 ready_20))"
            and s'' = "waited 2 (issued_Basic 16000 ready_20)"]
  show ?thesis using tc ok nz m1 m2 by (simp add: ready_20_fields)
qed

subsection \<open>C10\<close>

text \<open>
  C10. With both steppers configured, \<open>pulseCounts[0]\<close> and \<open>pulseCounts[1]\<close> are equal
  after start-up and after every sequence of operations: every operation keeps both
  pointers non-null and the two counters equal. States are those between operations.
  The same for every sequence of moves of the earlier sketches.
\<close>

theorem counters_stay_equal:
  "balanced (setup_sketch True True globals) \<and>
   (execs R ops (setup_sketch True True globals) = Some t \<longrightarrow>
      pulseCounts t ! 0 = pulseCounts t ! 1) \<and>
   (balanced s \<and> exec R a s = Some s' \<longrightarrow> balanced s') \<and>
   (balanced s \<and> moves_Basic R xs s = Some s'' \<longrightarrow> pulseCounts s'' ! 0 = pulseCounts s'' ! 1)"
proof (intro conjI impI)
  show "balanced (setup_sketch True True globals)" by (rule balanced_ready)
  show "pulseCounts t ! 0 = pulseCounts t ! 1"
    if "execs R ops (setup_sketch True True globals) = Some t"
    using balanced_execs[OF balanced_ready that] by (simp add: balanced_def)
  show "balanced s'" if "balanced s \<and> exec R a s = Some s'"
    using that balanced_exec by blast
  show "pulseCounts s'' ! 0 = pulseCounts s'' ! 1"
    if "balanced s \<and> moves_Basic R xs s = Some s''"
  proof -
    from that balanced_moves_Basic have "balanced s''" by blast
    then show ?thesis by (simp add: balanced_def)
  qed
qed

text \<open>Button B, then A, C, A in v2.7; A then C in v2.1.\<close>

theorem counters_stay_equal_witness:
  "execs idle_library
      [UpdateSpeed, MoveBothMotors 16000, DrawStatus, MoveBothMotors (- 16000), DrawStatus,
       MoveBothMotors 16000, DrawStatus] (setup_sketch True True globals) \<noteq> None \<and>
   pulseCounts (the (execs idle_library
      [UpdateSpeed, MoveBothMotors 16000, DrawStatus, MoveBothMotors (- 16000), DrawStatus,
       MoveBothMotors 16000, DrawStatus] (setup_sketch True True globals))) ! 0 =
   pulseCounts (the (execs idle_library
      [UpdateSpeed, MoveBothMotors 16000, DrawStatus, MoveBothMotors (- 16000), DrawStatus,
       MoveBothMotors 16000, DrawStatus] (setup_sketch True True globals))) ! 1 \<and>
   balanced ready_20 \<and> exec idle_library (MoveBothMotors 16000) ready_20 \<noteq> None \<and>
   balanced (the (exec idle_library (MoveBothMotors 16000) ready_20)) \<and>
   pulseCounts (the (exec idle_library (MoveBothMotors 16000) ready_20)) = [16000, 16000] \<and>
   balanced ready_AdjSpeed \<and>
   moves_Basic idle_library [3200, - 3200] ready_AdjSpeed \<noteq> None \<and>
   pulseCounts (the (moves_Basic idle_library [3200, - 3200] ready_AdjSpeed)) ! 0 =
   pulseCounts (the (moves_Basic idle_library [3200, - 3200] ready_AdjSpeed)) ! 1"
proof -
  let ?ops = "[UpdateSpeed, MoveBothMotors 16000, DrawStatus, MoveBothMotors (- 16000),
               DrawStatus, MoveBothMotors 16000, DrawStatus]"
  from execs_idle[OF two_channels_setup_sketch, of ?ops True True] obtain t where
    t: "execs idle_library ?ops (setup_sketch True True globals) = Some t" by blast
  have b: "balanced ready_20"
    by (simp add: balanced_def ready_20_fields)
  have nz: "speedLevel ready_20 \<noteq> 0" by (simp add: ready_20_fields)
  note m = moveBothMotors_returns[OF ready_20_fields(1) nz first_idle_idle_library, of 16000]
  have pc: "pulseCounts (emit (SerialPrint ''Move complete.'' [])
               (waited 0 (issued 16000 ready_20))) = [16000, 16000]"
    by (simp add: issued_def counted_def sent_def ready_20_fields)
  from moves_Basic_idle[OF ready_AdjSpeed_fields(1), of "[3200, - 3200]"] obtain u where
    u: "moves_Basic idle_library [3200, - 3200] ready_AdjSpeed = Some u" by blast
  let ?s1 = "emit (SerialPrint ''Move complete.'' []) (waited 0 (issued 16000 ready_20))"
  have me: "exec idle_library (MoveBothMotors 16000) ready_20 = Some ?s1"
    by (simp add: m)
  have c1: "pulseCounts t ! 0 = pulseCounts t ! 1"
    using counters_stay_equal[where R = idle_library and ops = ?ops and t = t] t by blast
  have c2: "balanced ?s1"
    using counters_stay_equal
            [where R = idle_library and s = ready_20 and a = "MoveBothMotors 16000"
               and s' = ?s1] b me
    by blast
  have c3: "pulseCounts u ! 0 = pulseCounts u ! 1"
    using counters_stay_equal
            [where R = idle_library and s = ready_AdjSpeed and xs = "[3200, - 3200]"
               and s'' = u] u balanced_ready_AdjSpeed
    by blast
  show ?thesis
    unfolding t u me option.sel
    using c1 c2 c3 b pc balanced_ready_AdjSpeed by simp
qed

end
